theory Spec2Isabelle
  imports Complex_Main "HOL-Library.Word" "HOL-Library.Log_Nat"
begin

section \<open>Values of the host language\<close>

text \<open>
  The plugin is TypeScript. An optional string parameter (\<open>full?: string\<close>) is a
  \<open>string option\<close>; a condition \<open>if (s)\<close> on it holds when the string is present and
  not empty, which is \<open>truthy\<close>. \<open>a || b\<close> on such values is \<open>js_or\<close>.
\<close>

definition truthy :: "string option \<Rightarrow> bool" where
  "truthy s = (case s of None \<Rightarrow> False | Some v \<Rightarrow> v \<noteq> [])"

definition js_or :: "string option \<Rightarrow> string option \<Rightarrow> string option" where
  "js_or a b = (if truthy a then a else b)"

text \<open>
  An array read \<open>xs[i]\<close> past the end is \<open>undefined\<close>, not an exception.
\<close>

definition at_index :: "'a list \<Rightarrow> nat \<Rightarrow> 'a option" where
  "at_index xs i = (if i < length xs then Some (xs ! i) else None)"

text \<open>
  Numbers are IEEE 754 doubles. A finite double is \<open>Num m e\<close>, the number
  \<open>m * 2 ^ e\<close>; it is a double when it can be written with \<open>\<bar>m\<bar> < 2 ^ 53\<close> and
  \<open>e \<ge> - 1074\<close> and lies below \<open>2 ^ 1024\<close> in magnitude (\<open>is_double\<close>). The other
  values are the two infinities and \<open>NaN\<close>. The sign of a zero is not kept.
\<close>

datatype jsnum = Num int int | PosInf | NegInf | NaN

definition val :: "int \<Rightarrow> int \<Rightarrow> rat" where
  "val m e = of_int m * 2 powi e"

definition is_double :: "int \<Rightarrow> int \<Rightarrow> bool" where
  "is_double m e = (\<bar>m\<bar> < 2 ^ 53 \<and> - 1074 \<le> e \<and> \<bar>val m e\<bar> < 2 ^ 1024)"

definition has_value :: "jsnum \<Rightarrow> rat \<Rightarrow> bool" where
  "has_value d q = (case d of Num m e \<Rightarrow> val m e = q | _ \<Rightarrow> False)"

text \<open>
  The result of an arithmetic operation is its exact result rounded to a double: to 53
  significant bits, or to a multiple of \<open>2 ^ - 1074\<close> where that is coarser, the nearer
  neighbour winning and a tie going to the even one; a rounded magnitude of \<open>2 ^ 1024\<close>
  or more is an infinity.
\<close>

definition overflow :: "int \<Rightarrow> int \<Rightarrow> jsnum" where
  "overflow m e =
     (if 2 ^ 1024 \<le> val m e then PosInf
      else if val m e \<le> - (2 ^ 1024) then NegInf
      else Num m e)"

definition round_half_even :: "int \<Rightarrow> nat \<Rightarrow> int" where
  "round_half_even m s =
     (let q = m div 2 ^ s;
          r = m mod 2 ^ s;
          half = 2 ^ (s - 1)
      in if r < half then q else if half < r then q + 1
         else if even q then q else q + 1)"

definition round_to_double :: "int \<Rightarrow> int \<Rightarrow> jsnum" where
  "round_to_double m e =
     (let s = max (bitlen \<bar>m\<bar> - 53) (- 1074 - e) in
      if s \<le> 0 then overflow m e
      else overflow (round_half_even m (nat s)) (e + s))"

fun js_sign :: "jsnum \<Rightarrow> int" where
  "js_sign (Num m e) = sgn m"
| "js_sign PosInf = 1"
| "js_sign NegInf = - 1"
| "js_sign NaN = 0"

text \<open>\<open>a * b\<close> and \<open>Math.max(a, b)\<close> on numbers.\<close>

fun js_times :: "jsnum \<Rightarrow> jsnum \<Rightarrow> jsnum" where
  "js_times NaN b = NaN"
| "js_times a NaN = NaN"
| "js_times (Num a x) (Num b y) = round_to_double (a * b) (x + y)"
| "js_times a b =
     (if js_sign a * js_sign b = 0 then NaN
      else if 0 < js_sign a * js_sign b then PosInf else NegInf)"

fun js_max :: "jsnum \<Rightarrow> jsnum \<Rightarrow> jsnum" where
  "js_max NaN b = NaN"
| "js_max a NaN = NaN"
| "js_max PosInf b = PosInf"
| "js_max a PosInf = PosInf"
| "js_max NegInf b = b"
| "js_max a NegInf = a"
| "js_max (Num a x) (Num b y) = (if val a x \<le> val b y then Num b y else Num a x)"

text \<open>Everything the pipeline or one of its collaborators can throw.\<close>

datatype error =
    NoLLMProvidersSelected    \<comment> \<open>\<open>new Error('No LLM providers selected')\<close>\<close>
  | EmptyResponse             \<comment> \<open>\<open>new Error('Empty response from LLM')\<close>\<close>
  | InvalidResponseFormat     \<comment> \<open>\<open>new Error('Invalid response format from LLM')\<close>\<close>
  | TypeError                 \<comment> \<open>a property read on \<open>undefined\<close> or \<open>null\<close>\<close>
  | External string           \<comment> \<open>thrown by a collaborator: codec, host, provider, timer, downstream\<close>

section \<open>Snapshot assembly: \<open>buildImageList\<close> (main.ts, lines 60 to 73)\<close>

definition buildImageList :: "string \<Rightarrow> string option \<Rightarrow> string option \<Rightarrow> string list" where
  "buildImageList mode full cropped =
     (if mode = ''both'' then
        (if truthy full then [the full] else []) @ (if truthy cropped then [the cropped] else [])
      else if mode = ''full'' then
        (if truthy full then [the full] else if truthy cropped then [the cropped] else [])
      else
        (if truthy cropped then [the cropped] else if truthy full then [the full] else []))"

section \<open>Image codec: \<open>resizeJpegNearest\<close> (main.ts, lines 29 to 58)\<close>

type_synonym bytes = "8 word list"

text \<open>
  What \<open>jpeg.decode\<close> returns: RGBA bytes, four per pixel, row by row, with the
  dimensions. Widths and heights, the target width among them, are natural numbers.
\<close>

record raw_image =
  data :: bytes
  width :: nat
  height :: nat

record MediaObject =
  mediaId :: nat
  mo_sourceId :: "string option"

datatype media = MediaUrl string | MediaObj MediaObject

record event_data =
  detectionId :: "string option"
  detections :: "string option list"     \<comment> \<open>the \<open>id\<close> of each detection\<close>
  ed_sourceId :: "string option"

record RecordedEvent =
  eventId :: "string option"
  re_data :: "event_data option"

record NotifierOptions =
  subtitle :: "string option"
  body :: "string option"
  recordedEvent :: "RecordedEvent option"
  od_sourceId :: "string option"         \<comment> \<open>\<open>options.data?.sourceId\<close>\<close>

text \<open>
  One call of the downstream notifier: the four arguments, \<open>options\<close> being the address of
  an options object, and what that object held when the call was made.
\<close>

record call =
  c_title :: string
  c_options :: "nat option"
  c_content :: "NotifierOptions option"
  c_media :: "media option"
  c_icon :: "media option"

record metadata =
  originalTitle :: "string option"
  originalSubtitle :: "string option"
  originalBody :: "string option"
  instruction :: "string option"

record message_template =
  mt_userPrompt :: string
  mt_imageUrls :: "string list"
  mt_metadata :: metadata

datatype json =
    JNull | JBool bool | JNumber rat | JString string
  | JArray "json list" | JObject "(string \<times> json) list"

record chat_completion =
  choices :: "string option list"   \<comment> \<open>\<open>choices[i].message.content\<close>\<close>

type_synonym device = nat

text \<open>
  The collaborators of the pipeline, none of which is code of this repository: the host's
  media manager and device registry, the JPEG library, the inference provider raced
  against its timer, \<open>JSON.parse\<close> and the downstream notifier. Each is a function of
  its arguments that returns a result or the error it throws. The downstream notifier
  also sees how many calls reached it before, so it may fail on one call and accept the
  next. \<open>uninitialized\<close> is the content of a buffer from \<open>Buffer.allocUnsafe\<close>.
\<close>

record env =
  convertMediaObjectToBuffer :: "MediaObject \<Rightarrow> error + bytes"
  toBase64 :: "bytes \<Rightarrow> string"
  jpeg_decode :: "bytes \<Rightarrow> error + raw_image"
  jpeg_encode :: "raw_image \<Rightarrow> nat \<Rightarrow> error + bytes"
  uninitialized :: "nat \<Rightarrow> 8 word"
  getDetectionInput :: "string \<Rightarrow> (string \<Rightarrow> string option \<Rightarrow> error + MediaObject) option"
  getDeviceById :: "string option \<Rightarrow> device option"
  getChatCompletion :: "device \<Rightarrow> message_template \<Rightarrow> jsnum \<Rightarrow> error + chat_completion"
  json_parse :: "string \<Rightarrow> error + json"
  mixinSend :: "nat \<Rightarrow> call \<Rightarrow> error + unit"

text \<open>
  \<open>Math.round(a / b)\<close> for natural numbers with \<open>b > 0\<close> rounds a half up;
  \<open>Math.floor(a / b)\<close> is \<open>a div b\<close>. Both agree with the double-precision results
  for every product below \<open>2 ^ 53\<close>.
\<close>

definition js_round_div :: "nat \<Rightarrow> nat \<Rightarrow> nat" where
  "js_round_div a b = (2 * a + b) div (2 * b)"

text \<open>\<open>n << 2\<close>: the shift works on 32-bit signed integers and wraps.\<close>

definition shl2 :: "int \<Rightarrow> int" where
  "shl2 n = signed_take_bit 31 (n * 4)"

text \<open>
  Typed arrays: a read outside the array is \<open>undefined\<close>, which a buffer stores as 0; a
  write outside the array is dropped.
\<close>

definition rd :: "bytes \<Rightarrow> int \<Rightarrow> 8 word" where
  "rd a i = (if 0 \<le> i \<and> i < int (length a) then a ! nat i else 0)"

definition wr :: "bytes \<Rightarrow> int \<Rightarrow> 8 word \<Rightarrow> bytes" where
  "wr a i v = (if 0 \<le> i \<and> i < int (length a) then a[nat i := v] else a)"

definition allocUnsafe :: "env \<Rightarrow> nat \<Rightarrow> bytes" where
  "allocUnsafe env n = map (uninitialized env) [0..<n]"

text \<open>The body of the inner loop (lines 42 to 48), for one \<open>x\<close>.\<close>

definition copy_pixel :: "bytes \<Rightarrow> nat \<Rightarrow> nat \<Rightarrow> nat \<Rightarrow> nat \<Rightarrow> nat \<Rightarrow> bytes \<Rightarrow> bytes" where
  "copy_pixel src sw dw sy y x dst =
     (let sx = (x * sw) div dw;
          si = shl2 (int (sy * sw + sx));
          di = shl2 (int (y * dw + x));
          dst = wr dst di (rd src si);
          dst = wr dst (di + 1) (rd src (si + 1));
          dst = wr dst (di + 2) (rd src (si + 2));
          dst = wr dst (di + 3) 255
      in dst)"

text \<open>The body of the outer loop (lines 40 to 49), for one \<open>y\<close>.\<close>

definition copy_row :: "bytes \<Rightarrow> nat \<Rightarrow> nat \<Rightarrow> nat \<Rightarrow> nat \<Rightarrow> nat \<Rightarrow> bytes \<Rightarrow> bytes" where
  "copy_row src sw sh dw dh y dst =
     (let sy = (y * sh) div dh
      in fold (copy_pixel src sw dw sy y) [0..<dw] dst)"

text \<open>
  Lines 37 to 50: the image handed to the encoder, for a decoded image and a width
  \<open>dw\<close>.
\<close>

definition nearest :: "env \<Rightarrow> raw_image \<Rightarrow> nat \<Rightarrow> raw_image" where
  "nearest env img dw =
     (let src = data img; sw = width img; sh = height img;
          dh = max 1 (js_round_div (sh * dw) sw);
          dst = allocUnsafe env (dw * dh * 4);
          dst = fold (copy_row src sw sh dw dh) [0..<dh] dst
      in \<lparr>data = dst, width = dw, height = dh\<rparr>)"

definition resizeJpegNearest :: "env \<Rightarrow> bytes \<Rightarrow> nat \<Rightarrow> nat \<Rightarrow> error + bytes" where
  "resizeJpegNearest env input targetWidth quality =
     (case jpeg_decode env input of
        Inl e \<Rightarrow> Inl e
      | Inr img \<Rightarrow>
          (let sw = width img; sh = height img in
           if sw = 0 \<or> sh = 0 then Inr input
           else
             let dw = min targetWidth sw in
             if dw = sw then Inr input
             else jpeg_encode env (nearest env img dw) quality))"

definition getJpegDimensions :: "env \<Rightarrow> bytes \<Rightarrow> error + nat \<times> nat" where
  "getJpegDimensions env input =
     (case jpeg_decode env input of
        Inl e \<Rightarrow> Inl e
      | Inr img \<Rightarrow> Inr (width img, height img))"

section \<open>Settings and the provider pool (main.ts, lines 295 to 411)\<close>

record settings =
  enabled :: bool
  snapshotMode :: "string option"
  llmTimeoutMs :: "jsnum option"
  chatCompletions :: "string list option"
  userPrompt :: string
  includeOriginalMessage :: bool

record LLMNotifierProvider =
  storageSettings :: settings            \<comment> \<open>\<open>storageSettings.values\<close>\<close>
  currentProviderIndex :: nat

definition selectProvider ::
  "env \<Rightarrow> LLMNotifierProvider \<Rightarrow> (error + device option) \<times> LLMNotifierProvider" where
  "selectProvider env p =
     (case chatCompletions (storageSettings p) of
        None \<Rightarrow> (Inl NoLLMProvidersSelected, p)
      | Some providerIds \<Rightarrow>
          if length providerIds = 0 then (Inl NoLLMProvidersSelected, p)
          else
            let providerId = at_index providerIds (currentProviderIndex p);
                p = p\<lparr>currentProviderIndex :=
                        (currentProviderIndex p + 1) mod length providerIds\<rparr>
            in (Inr (getDeviceById env providerId), p))"

text \<open>\<open>n\<close> selections in a row: the results in order, and the pool afterwards.\<close>

fun selections ::
  "env \<Rightarrow> nat \<Rightarrow> LLMNotifierProvider \<Rightarrow> (error + device option) list \<times> LLMNotifierProvider" where
  "selections env 0 p = ([], p)"
| "selections env (Suc n) p =
     (case selectProvider env p of
        (r, p') \<Rightarrow> (case selections env n p' of (rs, p'') \<Rightarrow> (r # rs, p'')))"

text \<open>
  Lines 259 and 260: the deadline of the inference call, in milliseconds. The field
  \<open>llmTimeoutMs\<close> holds the setting as \<open>Number\<close> reads it, and \<open>None\<close> when the
  setting is \<open>null\<close> or \<open>undefined\<close>.
\<close>

definition llmTimeout :: "settings \<Rightarrow> jsnum" where
  "llmTimeout values =
     (let timeoutSec = (case llmTimeoutMs values of None \<Rightarrow> Num 90 0 | Some v \<Rightarrow> v)
      in js_times (js_max (Num 1 0) timeoutSec) (Num 1000 0))"


section \<open>The notifier mixin: \<open>sendNotification\<close> (main.ts, lines 144 to 293)\<close>

record stats =
  withSnapshot :: nat
  withoutSnapshot :: nat
  totalCount :: nat                      \<comment> \<open>\<open>notificationStats.total\<close>\<close>

text \<open>
  The state a call can change: the provider pool with its cursor, the counters, the
  store of options objects (an address is an index into \<open>heap\<close>; the caller keeps the
  address it passed in, so a write through it is visible to the caller), and the calls
  that reached the downstream notifier, oldest first.
\<close>

record state =
  llmProvider :: LLMNotifierProvider
  notificationStats :: stats
  heap :: "NotifierOptions list"
  sent :: "call list"

definition deref :: "NotifierOptions list \<Rightarrow> nat option \<Rightarrow> NotifierOptions option" where
  "deref h r = (case r of None \<Rightarrow> None | Some a \<Rightarrow> at_index h a)"

text \<open>The object literal \<open>{}\<close> of line 282.\<close>

definition empty_options :: NotifierOptions where
  "empty_options = \<lparr>subtitle = None, body = None, recordedEvent = None, od_sourceId = None\<rparr>"

text \<open>\<open>this.mixinDevice.sendNotification(title, options, media, icon)\<close>.\<close>

definition forward ::
  "env \<Rightarrow> state \<Rightarrow> string \<Rightarrow> nat option \<Rightarrow> media option \<Rightarrow> media option
   \<Rightarrow> (error + unit) \<times> state" where
  "forward env st title options media icon =
     (let c = \<lparr>c_title = title, c_options = options, c_content = deref (heap st) options,
                c_media = media, c_icon = icon\<rparr>
      in (mixinSend env (length (sent st)) c, st\<lparr>sent := sent st @ [c]\<rparr>))"

text \<open>\<open>!media\<close>: no media, or the empty string.\<close>

definition no_media :: "media option \<Rightarrow> bool" where
  "no_media media =
     (case media of None \<Rightarrow> True | Some (MediaUrl u) \<Rightarrow> u = [] | Some (MediaObj m) \<Rightarrow> False)"

definition dataUrl :: "env \<Rightarrow> bytes \<Rightarrow> string" where
  "dataUrl env buffer = ''data:image/jpeg;base64,'' @ toBase64 env buffer"

text \<open>Lines 171 to 179: the image that came with the notification.\<close>

definition imageUrlOf :: "env \<Rightarrow> media \<Rightarrow> error + string" where
  "imageUrlOf env media =
     (case media of
        MediaUrl u \<Rightarrow> Inr u
      | MediaObj m \<Rightarrow>
          (case convertMediaObjectToBuffer env m of
             Inl e \<Rightarrow> Inl e
           | Inr buffer \<Rightarrow> Inr (dataUrl env buffer)))"

text \<open>\<open>values.snapshotMode || 'cropped'\<close> (lines 183 and 241).\<close>

definition snapshotModeOf :: "settings \<Rightarrow> string" where
  "snapshotModeOf values = the (js_or (snapshotMode values) (Some ''cropped''))"

text \<open>The body of the inner \<open>try\<close> (lines 196 to 210).\<close>

definition resizedFullFrame :: "env \<Rightarrow> MediaObject \<Rightarrow> error + string" where
  "resizedFullFrame env fullMo =
     (case convertMediaObjectToBuffer env fullMo of
        Inl e \<Rightarrow> Inl e
      | Inr fullBuf \<Rightarrow>
          (case getJpegDimensions env fullBuf of
             Inl e \<Rightarrow> Inl e
           | Inr (sw, sh) \<Rightarrow>
               (let targetWidth =
                      (if sw > 3000 then 640 else if sw > 1500 then 512
                       else if sw > 800 then 384 else sw);
                    dw = min targetWidth sw
                in case resizeJpegNearest env fullBuf dw 60 of
                     Inl e \<Rightarrow> Inl e
                   | Inr resized \<Rightarrow> Inr (dataUrl env resized))))"

text \<open>
  Lines 182 to 222: the full frame of the event, when the mode asks for one. Every
  failure in here ends with no full frame, or with the frame as it came when only the
  resize failed.
\<close>

definition fetchFullFrame ::
  "env \<Rightarrow> settings \<Rightarrow> NotifierOptions option \<Rightarrow> media \<Rightarrow> string option" where
  "fetchFullFrame env values options media =
     (if snapshotModeOf values \<noteq> ''cropped'' then
        (let re = (case options of None \<Rightarrow> None | Some ob \<Rightarrow> recordedEvent ob);
             data = (case re of None \<Rightarrow> None | Some r \<Rightarrow> re_data r);
             detectionId =
               js_or (case data of None \<Rightarrow> None | Some d \<Rightarrow> detectionId d)
                     (case data of None \<Rightarrow> None
                      | Some d \<Rightarrow> (case detections d of [] \<Rightarrow> None | i # _ \<Rightarrow> i));
             sourceId =
               js_or (js_or (case data of None \<Rightarrow> None | Some d \<Rightarrow> ed_sourceId d)
                            (case options of None \<Rightarrow> None | Some ob \<Rightarrow> od_sourceId ob))
                     (case media of MediaUrl u \<Rightarrow> None | MediaObj m \<Rightarrow> mo_sourceId m)
         in if truthy detectionId \<and> truthy sourceId then
              (case getDetectionInput env (the sourceId) of
                 None \<Rightarrow> None
               | Some objDet \<Rightarrow>
                   (case objDet (the detectionId)
                           (case re of None \<Rightarrow> None | Some r \<Rightarrow> eventId r) of
                      Inl e \<Rightarrow> None
                    | Inr fullMo \<Rightarrow>
                        (case resizedFullFrame env fullMo of
                           Inr url \<Rightarrow> Some url
                         | Inl resizeErr \<Rightarrow>
                             (case convertMediaObjectToBuffer env fullMo of
                                Inl e \<Rightarrow> None
                              | Inr buf \<Rightarrow> Some (dataUrl env buf)))))
            else None)
      else None)"

text \<open>Lines 230 to 238. The text of the instruction is cut short here.\<close>

definition buildMetadata :: "settings \<Rightarrow> string \<Rightarrow> NotifierOptions option \<Rightarrow> metadata" where
  "buildMetadata values title options =
     (if includeOriginalMessage values then
        \<lparr>originalTitle = Some title,
         originalSubtitle = (case options of None \<Rightarrow> None | Some ob \<Rightarrow> subtitle ob),
         originalBody = (case options of None \<Rightarrow> None | Some ob \<Rightarrow> body ob),
         instruction = Some ''Extract any Maybe: [name] from the original text''\<rparr>
      else
        \<lparr>originalTitle = None, originalSubtitle = None, originalBody = None,
         instruction = None\<rparr>)"

text \<open>
  \<open>createMessageTemplate\<close> (lines 81 to 142), without the fixed text of the prompt and
  of the response schema.
\<close>

definition createMessageTemplate :: "string \<Rightarrow> string list \<Rightarrow> metadata \<Rightarrow> message_template" where
  "createMessageTemplate prompt imageUrls md =
     \<lparr>mt_userPrompt = prompt, mt_imageUrls = imageUrls, mt_metadata = md\<rparr>"

text \<open>
  Lines 273 to 276: the destructuring of the parsed response and the type check. A
  property read on \<open>null\<close> throws; on any other value that is not an object with that
  key it is \<open>undefined\<close>.
\<close>

definition property :: "json \<Rightarrow> string \<Rightarrow> json option" where
  "property j k = (case j of JObject kvs \<Rightarrow> map_of kvs k | _ \<Rightarrow> None)"

definition checkResponse :: "json \<Rightarrow> error + string \<times> string \<times> string" where
  "checkResponse j =
     (case j of
        JNull \<Rightarrow> Inl TypeError
      | _ \<Rightarrow>
          (case (property j ''title'', property j ''subtitle'', property j ''body'') of
             (Some (JString newTitle), Some (JString subtitle'), Some (JString body')) \<Rightarrow>
               Inr (newTitle, subtitle', body')
           | _ \<Rightarrow> Inl InvalidResponseFormat))"

text \<open>
  Lines 256 to 276: from the selection of a provider to the validated response. The
  call of the provider is raced against a timer of \<open>llmTimeout\<close> milliseconds; the
  collaborator \<open>getChatCompletion\<close> returns what the race settles to.
\<close>

definition requestEnhancement ::
  "env \<Rightarrow> LLMNotifierProvider \<Rightarrow> message_template
   \<Rightarrow> (error + string \<times> string \<times> string) \<times> LLMNotifierProvider" where
  "requestEnhancement env p messageTemplate =
     (case selectProvider env p of
        (Inl e, p') \<Rightarrow> (Inl e, p')
      | (Inr device, p') \<Rightarrow>
          (case device of
             None \<Rightarrow> (Inl TypeError, p')
           | Some d \<Rightarrow>
               (case getChatCompletion env d messageTemplate (llmTimeout (storageSettings p')) of
                  Inl e \<Rightarrow> (Inl e, p')
                | Inr completion \<Rightarrow>
                    (case choices completion of
                       [] \<Rightarrow> (Inl TypeError, p')
                     | content # _ \<Rightarrow>
                         if truthy content then
                           (case json_parse env (the content) of
                              Inl e \<Rightarrow> (Inl e, p')
                            | Inr j \<Rightarrow> (checkResponse j, p'))
                         else (Inl EmptyResponse, p')))))"

text \<open>Lines 282 to 284: \<open>options ||= {}\<close> and the two assignments.\<close>

definition updateOptions ::
  "state \<Rightarrow> nat option \<Rightarrow> string \<Rightarrow> string \<Rightarrow> nat option \<times> state" where
  "updateOptions st options subtitle' body' =
     (let (r, st) = (case options of
                       None \<Rightarrow> (length (heap st), st\<lparr>heap := heap st @ [empty_options]\<rparr>)
                     | Some a \<Rightarrow> (a, st));
          st = st\<lparr>heap := (heap st)[r := (heap st ! r)\<lparr>body := Some body'\<rparr>]\<rparr>;
          st = st\<lparr>heap := (heap st)[r := (heap st ! r)\<lparr>subtitle := Some subtitle'\<rparr>]\<rparr>
      in (Some r, st))"

definition count_total :: "state \<Rightarrow> state" where
  "count_total st =
     st\<lparr>notificationStats :=
          (notificationStats st)\<lparr>totalCount := totalCount (notificationStats st) + 1\<rparr>\<rparr>"

definition count_without :: "state \<Rightarrow> state" where
  "count_without st =
     st\<lparr>notificationStats :=
          (notificationStats st)\<lparr>withoutSnapshot := withoutSnapshot (notificationStats st) + 1\<rparr>\<rparr>"

definition count_with :: "state \<Rightarrow> state" where
  "count_with st =
     st\<lparr>notificationStats :=
          (notificationStats st)\<lparr>withSnapshot := withSnapshot (notificationStats st) + 1\<rparr>\<rparr>"

definition sendNotification ::
  "env \<Rightarrow> state \<Rightarrow> string \<Rightarrow> nat option \<Rightarrow> media option \<Rightarrow> media option
   \<Rightarrow> (error + unit) \<times> state" where
  "sendNotification env st title options media icon =
     (let st = count_total st;
          values = storageSettings (llmProvider st)
      in
      if no_media media \<or> \<not> enabled values then
        forward env (count_without st) title options media icon
      else
        let st = count_with st in
        case imageUrlOf env (the media) of
          Inl e \<Rightarrow> (Inl e, st)
        | Inr imageUrl \<Rightarrow>
            (let fullFrameUrl = fetchFullFrame env values (deref (heap st) options) (the media);
                 md = buildMetadata values title (deref (heap st) options);
                 imageUrls = buildImageList (snapshotModeOf values) fullFrameUrl (Some imageUrl)
             in
             if length imageUrls = 0 then forward env st title options media icon
             else
               let messageTemplate = createMessageTemplate (userPrompt values) imageUrls md in
               case requestEnhancement env (llmProvider st) messageTemplate of
                 (Inl e, p) \<Rightarrow> forward env (st\<lparr>llmProvider := p\<rparr>) title options media icon
               | (Inr (newTitle, subtitle', body'), p) \<Rightarrow>
                   (case updateOptions (st\<lparr>llmProvider := p\<rparr>) options subtitle' body' of
                      (options', st') \<Rightarrow>
                        (case forward env st' newTitle options' media icon of
                           (Inl e, st'') \<Rightarrow> forward env st'' title options' media icon
                         | (Inr r, st'') \<Rightarrow> (Inr r, st'')))))"

text \<open>The state of a freshly created mixin, and a run of inbound calls one after the other.\<close>

definition initial :: "settings \<Rightarrow> NotifierOptions list \<Rightarrow> state" where
  "initial values h =
     \<lparr>llmProvider = \<lparr>storageSettings = values, currentProviderIndex = 0\<rparr>,
      notificationStats = \<lparr>withSnapshot = 0, withoutSnapshot = 0, totalCount = 0\<rparr>,
      heap = h, sent = []\<rparr>"

fun run :: "env \<Rightarrow> state \<Rightarrow> (string \<times> nat option \<times> media option \<times> media option) list \<Rightarrow> state" where
  "run env st [] = st"
| "run env st ((title, options, media, icon) # calls) =
     run env (snd (sendNotification env st title options media icon)) calls"

section \<open>Concrete collaborators and inputs\<close>

text \<open>
  The settings as the plugin declares their defaults (no provider selected), and a pool
  of three providers.
\<close>

definition default_settings :: settings where
  "default_settings =
     \<lparr>enabled = True, snapshotMode = Some ''cropped'', llmTimeoutMs = Some (Num 90 0),
      chatCompletions = None, userPrompt = ''STYLE PREFERENCES'',
      includeOriginalMessage = True\<rparr>"

definition three_providers :: settings where
  "three_providers = default_settings\<lparr>chatCompletions := Some [''a'', ''bb'', ''ccc'']\<rparr>"

definition pool3 :: LLMNotifierProvider where
  "pool3 = \<lparr>storageSettings = three_providers, currentProviderIndex = 0\<rparr>"

text \<open>
  Collaborators that all succeed: the provider answers with the three fields of the
  specification's first end-to-end scenario, the decoder returns a 4 by 2 image whose
  pixel \<open>k\<close> holds the bytes \<open>4k, 4k+1, 4k+2, 4k+3\<close>, and a device is named by the
  length of its identifier.
\<close>

definition image4x2 :: raw_image where
  "image4x2 = \<lparr>data = map of_nat [0..<32], width = 4, height = 2\<rparr>"

definition answer :: json where
  "answer = JObject [(''title'', JString ''Richard at front door''),
                     (''subtitle'', JString ''Person - Front door''),
                     (''body'', JString ''Walking up holding a package.'')]"

definition env_ok :: env where
  "env_ok =
     \<lparr>convertMediaObjectToBuffer = (\<lambda>m. Inr [1, 2, 3]),
      toBase64 = (\<lambda>b. ''AQID''),
      jpeg_decode = (\<lambda>b. Inr image4x2),
      jpeg_encode = (\<lambda>img q. Inr (data img)),
      uninitialized = (\<lambda>i. 9),
      getDetectionInput = (\<lambda>s. None),
      getDeviceById = (\<lambda>i. case i of None \<Rightarrow> None | Some s \<Rightarrow> Some (length s)),
      getChatCompletion = (\<lambda>d t ms. Inr \<lparr>choices = [Some ''{...}'']\<rparr>),
      json_parse = (\<lambda>s. Inr answer),
      mixinSend = (\<lambda>n c. Inr ())\<rparr>"

text \<open>The media manager cannot convert the attached media object.\<close>

definition env_no_conversion :: env where
  "env_no_conversion =
     env_ok\<lparr>convertMediaObjectToBuffer := (\<lambda>m. Inl (External ''conversion failed''))\<rparr>"

text \<open>The downstream notifier rejects the first call that reaches it and accepts the next.\<close>

definition env_first_delivery_fails :: env where
  "env_first_delivery_fails =
     env_ok\<lparr>mixinSend := (\<lambda>n c. if n = 0 then Inl (External ''delivery failed'') else Inr ())\<rparr>"

text \<open>The JPEG library throws on bytes that are not a JPEG image.\<close>

definition env_no_decode :: env where
  "env_no_decode = env_ok\<lparr>jpeg_decode := (\<lambda>b. Inl (External ''SOI not found''))\<rparr>"

text \<open>
  An inbound notification: one options object at address 0, a media object and an
  icon.
\<close>

definition inbound_options :: NotifierOptions where
  "inbound_options =
     \<lparr>subtitle = Some ''Front door'', body = Some ''Maybe: Richard'',
      recordedEvent = None, od_sourceId = None\<rparr>"

definition snapshot :: media where
  "snapshot = MediaObj \<lparr>mediaId = 1, mo_sourceId = None\<rparr>"

definition app_icon :: media where
  "app_icon = MediaUrl ''icon.png''"

definition ready :: state where
  "ready = initial three_providers [inbound_options]"

section \<open>Theorems\<close>

subsection \<open>Snapshot assembly\<close>

text \<open>
  C3, as the specification states it, gives the empty list for mode \<open>cropped\<close> when the
  cropped image is missing. The code falls back to the full image there (line 70): with a
  full image and no cropped one, mode \<open>cropped\<close> returns the full image.
\<close>

theorem buildImageList_cropped_counterexample:
  "buildImageList ''cropped'' (Some ''F'') None \<noteq> []"
  by (simp add: buildImageList_def truthy_def)

text \<open>
  C3 (amended): for all present (non-empty) images \<open>f\<close> and \<open>c\<close>, \<open>buildImageList\<close> returns
  the list of the mode table, where every mode falls back to the other image when its
  preferred one is missing: mode \<open>cropped\<close> gives \<open>[c]\<close>, and \<open>[f]\<close> when the cropped image
  is missing; mode \<open>full\<close> gives \<open>[f]\<close>, and \<open>[c]\<close> when the full image is missing; mode
  \<open>both\<close> gives \<open>[f, c]\<close>, \<open>[c]\<close> when the full image is missing and \<open>[f]\<close> when the cropped
  one is; every mode gives the empty list when both are missing. An empty string counts as
  a missing image.
\<close>

theorem buildImageList_table:
  assumes "f \<noteq> []" and "c \<noteq> []"
  shows "buildImageList ''cropped'' (Some f) (Some c) = [c]
       \<and> buildImageList ''cropped'' None (Some c) = [c]
       \<and> buildImageList ''cropped'' (Some f) None = [f]
       \<and> buildImageList ''cropped'' None None = []
       \<and> buildImageList ''full'' (Some f) (Some c) = [f]
       \<and> buildImageList ''full'' None (Some c) = [c]
       \<and> buildImageList ''full'' (Some f) None = [f]
       \<and> buildImageList ''full'' None None = []
       \<and> buildImageList ''both'' (Some f) (Some c) = [f, c]
       \<and> buildImageList ''both'' None (Some c) = [c]
       \<and> buildImageList ''both'' (Some f) None = [f]
       \<and> buildImageList ''both'' None None = []
       \<and> buildImageList mode (Some []) x = buildImageList mode None x
       \<and> buildImageList mode x (Some []) = buildImageList mode x None"
  using assms by (simp add: buildImageList_def truthy_def)

theorem buildImageList_table_witness:
  "''F'' \<noteq> [] \<and> ''C'' \<noteq> []
   \<and> buildImageList ''cropped'' (Some ''F'') (Some ''C'') = [''C'']
   \<and> buildImageList ''cropped'' (Some ''F'') None = [''F'']
   \<and> buildImageList ''full'' None (Some ''C'') = [''C'']
   \<and> buildImageList ''both'' (Some ''F'') (Some ''C'') = [''F'', ''C'']"
  using buildImageList_table [of "''F''" "''C''"] by simp

subsection \<open>The provider pool\<close>

lemma selectProvider_step:
  assumes "chatCompletions (storageSettings p) = Some ps" and "ps \<noteq> []"
  shows "selectProvider env p =
           (Inr (getDeviceById env (at_index ps (currentProviderIndex p))),
            p\<lparr>currentProviderIndex := (currentProviderIndex p + 1) mod length ps\<rparr>)"
  using assms by (simp add: selectProvider_def)

text \<open>
  From a valid cursor \<open>c\<close>, the \<open>k\<close>-th of \<open>n\<close> selections in a row returns the provider
  at position \<open>(c + k) mod N\<close>, and the cursor ends at \<open>(c + n) mod N\<close>.
\<close>

lemma selections_rotation:
  assumes "chatCompletions (storageSettings p) = Some ps"
    and "currentProviderIndex p < length ps"
  shows "selections env n p =
           (map (\<lambda>k. Inr (getDeviceById env
                   (Some (ps ! ((currentProviderIndex p + k) mod length ps))))) [0..<n],
            p\<lparr>currentProviderIndex := (currentProviderIndex p + n) mod length ps\<rparr>)"
  using assms
proof (induction n arbitrary: p)
  case 0
  then show ?case by simp
next
  case (Suc n)
  let ?c = "currentProviderIndex p"
  let ?p' = "p\<lparr>currentProviderIndex := (?c + 1) mod length ps\<rparr>"
  from Suc.prems have ne: "ps \<noteq> []" by auto
  have step: "selectProvider env p = (Inr (getDeviceById env (Some (ps ! ?c))), ?p')"
    using selectProvider_step [OF Suc.prems(1) ne, of env] Suc.prems(2)
    by (simp add: at_index_def)
  have cc: "chatCompletions (storageSettings ?p') = Some ps"
    using Suc.prems(1) by simp
  have lt: "currentProviderIndex ?p' < length ps"
    using ne by simp
  have idx: "(Suc ?c mod length ps + k) mod length ps = Suc (?c + k) mod length ps" for k
    by (simp add: mod_add_left_eq)
  have m: "map (\<lambda>k. Inr (getDeviceById env (Some (ps ! ((?c + k) mod length ps))))) [0..<Suc n]
         = Inr (getDeviceById env (Some (ps ! ?c))) #
           map (\<lambda>k. Inr (getDeviceById env (Some (ps ! ((?c + Suc k) mod length ps))))) [0..<n]"
    using Suc.prems(2) by (simp add: upt_conv_Cons map_Suc_upt [symmetric] del: upt_Suc)
  have "selections env (Suc n) p =
          (Inr (getDeviceById env (Some (ps ! ?c))) #
           map (\<lambda>k. Inr (getDeviceById env (Some (ps ! ((?c + Suc k) mod length ps))))) [0..<n],
           p\<lparr>currentProviderIndex := (?c + Suc n) mod length ps\<rparr>)"
    using Suc.IH [OF cc lt] step by (simp add: idx del: upt_Suc)
  then show ?case unfolding m .
qed

lemma rotation_map:
  assumes "c < length ps"
  shows "map (\<lambda>k. f (ps ! ((c + k) mod length ps))) [0..<length ps] = map f (rotate c ps)"
proof (rule nth_equalityI)
  show "length (map (\<lambda>k. f (ps ! ((c + k) mod length ps))) [0..<length ps])
      = length (map f (rotate c ps))"
    by simp
next
  fix i assume "i < length (map (\<lambda>k. f (ps ! ((c + k) mod length ps))) [0..<length ps])"
  then have i: "i < length ps" by simp
  then show "map (\<lambda>k. f (ps ! ((c + k) mod length ps))) [0..<length ps] ! i
           = map f (rotate c ps) ! i"
    by (simp add: nth_rotate del: upt_Suc)
qed

text \<open>
  C6: for a pool of \<open>N \<ge> 1\<close> providers whose list stays fixed and whose cursor is a valid
  index, \<open>N\<close> selections in a row return the device of every configured provider exactly
  once, in the configured order taken cyclically from the cursor (the list itself when the
  cursor is 0, as in a fresh pool), and leave the pool as it was; so the selection after
  them returns the first of them again. In general the selection after \<open>k\<close> earlier ones
  returns the provider at position \<open>(cursor + k) mod N\<close>.
\<close>

theorem round_robin:
  assumes "chatCompletions (storageSettings p) = Some ps"
    and "currentProviderIndex p < length ps"
  shows "selections env (length ps) p =
           (map (\<lambda>i. Inr (getDeviceById env (Some i))) (rotate (currentProviderIndex p) ps), p)
       \<and> (currentProviderIndex p = 0 \<longrightarrow>
            fst (selections env (length ps) p) = map (\<lambda>i. Inr (getDeviceById env (Some i))) ps)
       \<and> fst (selectProvider env (snd (selections env (length ps) p)))
           = fst (selectProvider env p)
       \<and> (\<forall>k. fst (selectProvider env (snd (selections env k p)))
              = Inr (getDeviceById env
                  (Some (ps ! ((currentProviderIndex p + k) mod length ps)))))"
proof -
  from assms have ne: "ps \<noteq> []" by auto
  have a: "selections env (length ps) p =
           (map (\<lambda>i. Inr (getDeviceById env (Some i))) (rotate (currentProviderIndex p) ps), p)"
    using selections_rotation [OF assms, of env "length ps"] assms(2)
          rotation_map [OF assms(2), of "\<lambda>i. Inr (getDeviceById env (Some i))"]
    by simp
  have d: "fst (selectProvider env (snd (selections env k p)))
              = Inr (getDeviceById env
                  (Some (ps ! ((currentProviderIndex p + k) mod length ps))))" for k
    using selections_rotation [OF assms, of env k] assms(1) ne
    by (simp add: selectProvider_def at_index_def)
  show ?thesis using a d by simp
qed

theorem round_robin_witness:
  "chatCompletions (storageSettings pool3) = Some [''a'', ''bb'', ''ccc'']
   \<and> currentProviderIndex pool3 < length [''a'', ''bb'', ''ccc'']
   \<and> selections env_ok 3 pool3 = ([Inr (Some 1), Inr (Some 2), Inr (Some 3)], pool3)
   \<and> fst (selectProvider env_ok (snd (selections env_ok 3 pool3))) = Inr (Some 1)"
proof -
  have a: "chatCompletions (storageSettings pool3) = Some [''a'', ''bb'', ''ccc'']"
    by (simp add: pool3_def three_providers_def default_settings_def)
  have b: "currentProviderIndex pool3 < length [''a'', ''bb'', ''ccc'']"
    by (simp add: pool3_def)
  have g: "getDeviceById env_ok (Some s) = Some (length s)" for s
    by (simp add: env_ok_def)
  have s: "fst (selectProvider env_ok pool3) = Inr (Some 1)"
    using a by (simp add: selectProvider_def pool3_def at_index_def g)
  have c0: "currentProviderIndex pool3 = 0"
    by (simp add: pool3_def)
  note r = round_robin [OF a b, of env_ok]
  from r have 1: "selections env_ok (length [''a'', ''bb'', ''ccc'']) pool3 =
      (map (\<lambda>i. Inr (getDeviceById env_ok (Some i)))
         (rotate (currentProviderIndex pool3) [''a'', ''bb'', ''ccc'']), pool3)"
    by blast
  from r have 2:
    "fst (selectProvider env_ok (snd (selections env_ok (length [''a'', ''bb'', ''ccc'']) pool3)))
      = fst (selectProvider env_ok pool3)"
    by blast
  have 3: "selections env_ok 3 pool3 = ([Inr (Some 1), Inr (Some 2), Inr (Some 3)], pool3)"
    using 1 unfolding c0 by (simp add: g numeral_3_eq_3 del: selections.simps)
  have 4: "fst (selectProvider env_ok (snd (selections env_ok 3 pool3))) = Inr (Some 1)"
    using 2 s by (simp add: numeral_3_eq_3 del: selections.simps)
  show ?thesis using a b 3 4 by blast
qed

text \<open>
  C7: when the configured provider list is absent or empty, \<open>selectProvider\<close> throws
  \<open>No LLM providers selected\<close> whatever the cursor is, and leaves the pool untouched: it
  returns before the list is indexed (an indexed read would have reached the device
  registry with \<open>undefined\<close>). When the list is not empty, then after every selection,
  from any cursor, the cursor is a valid index into the list, and the list is unchanged.
\<close>

theorem selectProvider_guard:
  "(chatCompletions (storageSettings p) = None \<or> chatCompletions (storageSettings p) = Some []
      \<longrightarrow> selectProvider env p = (Inl NoLLMProvidersSelected, p))
   \<and> (\<forall>ps n. chatCompletions (storageSettings p) = Some ps \<and> ps \<noteq> []
      \<longrightarrow> currentProviderIndex (snd (selections env (Suc n) p)) < length ps
        \<and> chatCompletions (storageSettings (snd (selections env (Suc n) p))) = Some ps)"
proof -
  have one: "currentProviderIndex (snd (selectProvider env q)) < length ps
           \<and> chatCompletions (storageSettings (snd (selectProvider env q))) = Some ps"
    if "chatCompletions (storageSettings q) = Some ps" and "ps \<noteq> []" for q ps
    using that by (simp add: selectProvider_def)
  have many: "currentProviderIndex (snd (selections env (Suc n) q)) < length ps
           \<and> chatCompletions (storageSettings (snd (selections env (Suc n) q))) = Some ps"
    if "chatCompletions (storageSettings q) = Some ps" and "ps \<noteq> []" for q ps n
    using that
  proof (induction n arbitrary: q)
    case 0
    have "snd (selections env (Suc 0) q) = snd (selectProvider env q)"
      by (simp split: prod.splits)
    then show ?case using one [OF 0] by simp
  next
    case (Suc n)
    have "selections env (Suc (Suc n)) q = (case selectProvider env q of (r, q') \<Rightarrow>
            (case selections env (Suc n) q' of (rs, q'') \<Rightarrow> (r # rs, q'')))"
      by (simp only: selections.simps)
    then have "snd (selections env (Suc (Suc n)) q)
             = snd (selections env (Suc n) (snd (selectProvider env q)))"
      by (simp split: prod.splits)
    then show ?case
      using Suc.IH [of "snd (selectProvider env q)"] one [OF Suc.prems] Suc.prems(2) by simp
  qed
  show ?thesis
    using many by (auto simp: selectProvider_def)
qed

theorem selectProvider_guard_witness:
  "selectProvider env_ok \<lparr>storageSettings = default_settings, currentProviderIndex = 7\<rparr>
     = (Inl NoLLMProvidersSelected, \<lparr>storageSettings = default_settings, currentProviderIndex = 7\<rparr>)
   \<and> currentProviderIndex (snd (selections env_ok (Suc 0) (pool3\<lparr>currentProviderIndex := 5\<rparr>))) < 3"
proof -
  let ?p = "\<lparr>storageSettings = default_settings, currentProviderIndex = 7\<rparr>"
  let ?q = "pool3\<lparr>currentProviderIndex := 5\<rparr>"
  have a: "chatCompletions (storageSettings ?p) = None"
    by (simp add: default_settings_def)
  have b: "chatCompletions (storageSettings ?q) = Some [''a'', ''bb'', ''ccc'']
         \<and> [''a'', ''bb'', ''ccc''] \<noteq> []"
    by (simp add: pool3_def three_providers_def default_settings_def)
  have 1: "selectProvider env_ok ?p = (Inl NoLLMProvidersSelected, ?p)"
    using selectProvider_guard [of ?p env_ok] a by blast
  have "currentProviderIndex (snd (selections env_ok (Suc 0) ?q)) < length [''a'', ''bb'', ''ccc'']"
    using selectProvider_guard [of ?q env_ok] b by blast
  then have 2: "currentProviderIndex (snd (selections env_ok (Suc 0) ?q)) < 3"
    by (simp del: selections.simps)
  show ?thesis using 1 2 by blast
qed

subsection \<open>The deadline of the inference call\<close>









text \<open>
  The products of the code are double-precision products: a setting of 1.005 (the double
  \<open>4526117625507348 * 2 ^ - 52\<close>) gives \<open>1005 - 2 ^ - 43\<close> milliseconds, which prints as
  1004.9999999999999.
\<close>

lemma llmTimeout_rounds:
  "is_double 4526117625507348 (- 52)
   \<and> has_value (llmTimeout (default_settings\<lparr>llmTimeoutMs := Some (Num 4526117625507348 (- 52))\<rparr>))
        (1005 - 1 / 2 ^ 43)"
  by (simp add: llmTimeout_def default_settings_def val_def round_to_double_def overflow_def
        round_half_even_def compute_bitlen Let_def has_value_def is_double_def)



subsection \<open>The codec: when nothing is resized\<close>

text \<open>
  C5, as the specification states it, has \<open>resizeJpegNearest\<close> return its input when the
  input cannot be decoded. The function calls \<open>jpeg.decode\<close> outside of any \<open>try\<close>
  (line 31), so what the decoder throws leaves the function; it is the caller's inner
  \<open>catch\<close> (line 211) that then takes the frame as it came.
\<close>

theorem resize_undecodable_counterexample:
  "resizeJpegNearest env_no_decode [1, 2, 3] 2 60 = Inl (External ''SOI not found'')
   \<and> resizeJpegNearest env_no_decode [1, 2, 3] 2 60 \<noteq> Inr [1, 2, 3]"
  by (simp add: resizeJpegNearest_def env_no_decode_def env_ok_def)

text \<open>
  C5 (amended): for every input buffer and target width, \<open>resizeJpegNearest\<close> returns the
  input bytes unchanged, without an error, whenever the input decodes and the target
  width is at least the source width or the decoder reports a width or height of zero;
  when the decoder throws, that error is thrown on to the caller.
\<close>

theorem resize_identity:
  "(\<forall>img. jpeg_decode env input = Inr img
        \<and> (width img \<le> targetWidth \<or> width img = 0 \<or> height img = 0)
      \<longrightarrow> resizeJpegNearest env input targetWidth quality = Inr input)
   \<and> (\<forall>e. jpeg_decode env input = Inl e
      \<longrightarrow> resizeJpegNearest env input targetWidth quality = Inl e)"
  by (auto simp: resizeJpegNearest_def Let_def)

theorem resize_identity_witness:
  "jpeg_decode env_ok [1, 2, 3] = Inr image4x2 \<and> width image4x2 \<le> 4
   \<and> resizeJpegNearest env_ok [1, 2, 3] 4 60 = Inr [1, 2, 3]
   \<and> resizeJpegNearest env_ok [1, 2, 3] 9 60 = Inr [1, 2, 3]"
proof -
  have d: "jpeg_decode env_ok [1, 2, 3] = Inr image4x2"
    by (simp add: env_ok_def)
  have w: "width image4x2 \<le> 4" "width image4x2 \<le> 9"
    by (simp_all add: image4x2_def)
  have a: "resizeJpegNearest env_ok [1, 2, 3] 4 60 = Inr [1, 2, 3]"
    using resize_identity [of env_ok "[1, 2, 3]" 4 60] d w(1) by blast
  have b: "resizeJpegNearest env_ok [1, 2, 3] 9 60 = Inr [1, 2, 3]"
    using resize_identity [of env_ok "[1, 2, 3]" 9 60] d w(2) by blast
  show ?thesis using d w(1) a b by blast
qed
subsection \<open>The counters\<close>

lemma forward_stats:
  "notificationStats (snd (forward env st title options media icon)) = notificationStats st"
  by (simp add: forward_def Let_def)

lemma updateOptions_stats:
  "notificationStats (snd (updateOptions st options s b)) = notificationStats st"
  by (simp add: updateOptions_def Let_def split: option.splits)

text \<open>
  What one call does to the counters, whatever the collaborators do and whether the call
  returns or throws.
\<close>

lemma sendNotification_stats:
  "notificationStats (snd (sendNotification env st title options media icon)) =
     (if no_media media \<or> \<not> enabled (storageSettings (llmProvider st)) then
        (notificationStats st)
          \<lparr>withoutSnapshot := withoutSnapshot (notificationStats st) + 1,
           totalCount := totalCount (notificationStats st) + 1\<rparr>
      else
        (notificationStats st)
          \<lparr>withSnapshot := withSnapshot (notificationStats st) + 1,
           totalCount := totalCount (notificationStats st) + 1\<rparr>)"
  by (auto simp: sendNotification_def Let_def forward_def updateOptions_def
        count_total_def count_without_def count_with_def
      split: sum.splits prod.splits option.splits)

lemma run_stats:
  assumes "totalCount (notificationStats st)
         = withSnapshot (notificationStats st) + withoutSnapshot (notificationStats st)"
  shows "totalCount (notificationStats (run env st calls))
           = totalCount (notificationStats st) + length calls
       \<and> totalCount (notificationStats (run env st calls))
           = withSnapshot (notificationStats (run env st calls))
           + withoutSnapshot (notificationStats (run env st calls))"
  using assms
proof (induction calls arbitrary: st)
  case Nil
  then show ?case by simp
next
  case (Cons c calls)
  obtain title options media icon where c: "c = (title, options, media, icon)"
    by (cases c) auto
  let ?st = "snd (sendNotification env st title options media icon)"
  have inv: "totalCount (notificationStats ?st)
           = withSnapshot (notificationStats ?st) + withoutSnapshot (notificationStats ?st)"
    using Cons.prems by (simp add: sendNotification_stats)
  have tot: "totalCount (notificationStats ?st) = totalCount (notificationStats st) + 1"
    by (simp add: sendNotification_stats)
  show ?case
    using Cons.IH [OF inv] tot by (simp add: c)
qed

text \<open>
  C10: every call of \<open>sendNotification\<close>, whether it returns or throws, adds one to
  \<open>total\<close> and one to exactly one of \<open>withSnapshot\<close> and \<open>withoutSnapshot\<close>, and lowers
  no counter; so the equation \<open>total = withSnapshot + withoutSnapshot\<close> is kept by every
  call, and after any run of calls on a fresh mixin it holds with \<open>total\<close> the number of
  calls. The counters are natural numbers here (the code's are doubles, exact below
  \<open>2 ^ 53\<close>).
\<close>

theorem counters_invariant:
  "(let s = notificationStats st;
        s' = notificationStats (snd (sendNotification env st title options media icon))
    in totalCount s' = totalCount s + 1
       \<and> (withSnapshot s' = withSnapshot s + 1 \<and> withoutSnapshot s' = withoutSnapshot s
          \<or> withSnapshot s' = withSnapshot s \<and> withoutSnapshot s' = withoutSnapshot s + 1)
       \<and> (totalCount s = withSnapshot s + withoutSnapshot s
            \<longrightarrow> totalCount s' = withSnapshot s' + withoutSnapshot s'))
   \<and> (let r = notificationStats (run env (initial values h) calls)
      in totalCount r = length calls \<and> totalCount r = withSnapshot r + withoutSnapshot r)"
proof -
  have a: "totalCount (notificationStats (initial values h))
         = withSnapshot (notificationStats (initial values h))
         + withoutSnapshot (notificationStats (initial values h))"
    by (simp add: initial_def)
  have b: "totalCount (notificationStats (initial values h)) = 0"
    by (simp add: initial_def)
  show ?thesis
    using run_stats [OF a, of env calls] b
    by (simp add: Let_def sendNotification_stats)
qed

theorem counters_invariant_witness:
  "totalCount (notificationStats ready)
     = withSnapshot (notificationStats ready) + withoutSnapshot (notificationStats ready)
   \<and> notificationStats
       (snd (sendNotification env_ok ready ''Person'' (Some 0) (Some snapshot) (Some app_icon)))
     = \<lparr>withSnapshot = 1, withoutSnapshot = 0, totalCount = 1\<rparr>
   \<and> notificationStats
       (run env_ok (initial three_providers [inbound_options])
          [(''Person'', Some 0, Some snapshot, Some app_icon), (''Motion'', None, None, None)])
     = \<lparr>withSnapshot = 1, withoutSnapshot = 1, totalCount = 2\<rparr>"
proof -
  let ?s = "notificationStats ready"
  let ?s' = "notificationStats
       (snd (sendNotification env_ok ready ''Person'' (Some 0) (Some snapshot) (Some app_icon)))"
  let ?calls = "[(''Person'', Some 0, Some snapshot, Some app_icon), (''Motion'', None, None, None)]"
  let ?r = "notificationStats (run env_ok (initial three_providers [inbound_options]) ?calls)"
  note t = counters_invariant [of ready env_ok "''Person''" "Some 0" "Some snapshot" "Some app_icon"
      three_providers "[inbound_options]" ?calls]
  have z: "?s = \<lparr>withSnapshot = 0, withoutSnapshot = 0, totalCount = 0\<rparr>"
    by (simp add: ready_def initial_def)
  have inv: "totalCount ?s = withSnapshot ?s + withoutSnapshot ?s"
    by (simp add: z)
  have nm: "\<not> no_media (Some snapshot)"
    by (simp add: no_media_def snapshot_def)
  have en: "enabled (storageSettings (llmProvider ready))"
    by (simp add: ready_def initial_def three_providers_def default_settings_def)
  have w1: "withSnapshot ?s' \<noteq> withSnapshot ?s"
    using nm en by (simp add: sendNotification_stats)
  from t have "totalCount ?s' = totalCount ?s + 1
       \<and> (withSnapshot ?s' = withSnapshot ?s + 1 \<and> withoutSnapshot ?s' = withoutSnapshot ?s
          \<or> withSnapshot ?s' = withSnapshot ?s \<and> withoutSnapshot ?s' = withoutSnapshot ?s + 1)"
    by (simp add: Let_def)
  then have 1: "?s' = \<lparr>withSnapshot = 1, withoutSnapshot = 0, totalCount = 1\<rparr>"
    using w1 z by (cases ?s') auto
  from t have "totalCount ?r = length ?calls \<and> totalCount ?r = withSnapshot ?r + withoutSnapshot ?r"
    by (simp add: Let_def del: run.simps)
  moreover have "withoutSnapshot ?r = 1"
    by (simp add: sendNotification_stats no_media_def snapshot_def initial_def
          three_providers_def default_settings_def)
  ultimately have 2: "?r = \<lparr>withSnapshot = 1, withoutSnapshot = 1, totalCount = 2\<rparr>"
    by (cases ?r) (auto simp del: run.simps)
  show ?thesis using inv 1 2 by blast
qed
subsection \<open>What a call forwards and what it writes\<close>

text \<open>Lines 282 to 284 as one write to the store.\<close>

lemma updateOptions_eq:
  "updateOptions st options s b =
     (Some (case options of None \<Rightarrow> length (heap st) | Some a \<Rightarrow> a),
      st\<lparr>heap := (case options of
                    None \<Rightarrow> heap st @ [empty_options\<lparr>body := Some b, subtitle := Some s\<rparr>]
                  | Some a \<Rightarrow> (heap st)[a := (heap st ! a)\<lparr>body := Some b, subtitle := Some s\<rparr>])\<rparr>)"
proof (cases options)
  case None
  then show ?thesis by (simp add: updateOptions_def Let_def)
next
  case (Some a)
  show ?thesis
  proof (cases "a < length (heap st)")
    case True
    then show ?thesis using Some by (simp add: updateOptions_def Let_def)
  next
    case False
    then have "length (heap st) \<le> a" by simp
    then show ?thesis using Some by (simp add: updateOptions_def Let_def list_update_beyond)
  qed
qed

lemma sendNotification_sent:
  "\<exists>cs. sent (snd (sendNotification env st title options media icon)) = sent st @ cs
        \<and> length cs \<le> 2 \<and> (\<forall>c\<in>set cs. c_media c = media \<and> c_icon c = icon)"
  by (auto simp: sendNotification_def Let_def forward_def updateOptions_eq
        count_total_def count_without_def count_with_def
      split: sum.splits prod.splits option.splits)

lemma sendNotification_heap:
  "heap (snd (sendNotification env st title options media icon)) = heap st
   \<or> (\<exists>a s b. options = Some a
        \<and> heap (snd (sendNotification env st title options media icon))
          = (heap st)[a := (heap st ! a)\<lparr>body := Some b, subtitle := Some s\<rparr>])
   \<or> (\<exists>s b. options = None
        \<and> heap (snd (sendNotification env st title options media icon))
          = heap st @ [empty_options\<lparr>body := Some b, subtitle := Some s\<rparr>])"
  by (auto simp: sendNotification_def Let_def forward_def updateOptions_eq
        count_total_def count_without_def count_with_def
      split: sum.splits prod.splits option.splits)

text \<open>
  The skip path (lines 160 to 164): one call with the original arguments, whose outcome
  is the outcome of \<open>sendNotification\<close>.
\<close>

lemma skip_forwards_original:
  assumes "no_media media \<or> \<not> enabled (storageSettings (llmProvider st))"
  shows "sendNotification env st title options media icon
       = forward env (count_without (count_total st)) title options media icon"
  using assms by (simp add: sendNotification_def Let_def count_total_def)

text \<open>
  The fallback (lines 288 to 291): when anything from the selection of a provider to the
  check of the response throws, the original arguments are forwarded, once, the options
  object is as it was, and the outcome of that call is the outcome of
  \<open>sendNotification\<close>.
\<close>

lemma enhancement_failure_forwards_original:
  assumes "\<not> no_media media" and "enabled (storageSettings (llmProvider st))"
    and "imageUrlOf env (the media) = Inr imageUrl"
    and "imageUrls = buildImageList (snapshotModeOf (storageSettings (llmProvider st)))
           (fetchFullFrame env (storageSettings (llmProvider st)) (deref (heap st) options)
              (the media))
           (Some imageUrl)"
    and "imageUrls \<noteq> []"
    and "requestEnhancement env (llmProvider st)
           (createMessageTemplate (userPrompt (storageSettings (llmProvider st))) imageUrls
              (buildMetadata (storageSettings (llmProvider st)) title (deref (heap st) options)))
         = (Inl e, p)"
  shows "sendNotification env st title options media icon
       = (mixinSend env (length (sent st))
            \<lparr>c_title = title, c_options = options, c_content = deref (heap st) options,
             c_media = media, c_icon = icon\<rparr>,
          (count_with (count_total st))
            \<lparr>llmProvider := p,
             sent := sent st @
               [\<lparr>c_title = title, c_options = options, c_content = deref (heap st) options,
                 c_media = media, c_icon = icon\<rparr>]\<rparr>)"
  using assms
  by (simp add: sendNotification_def Let_def forward_def
        count_total_def count_with_def)

text \<open>
  The success path (lines 282 to 286), when the downstream notifier accepts the call: one
  call, with the generated title, the options object holding the generated subtitle and
  body, and the original media and icon.
\<close>

lemma enhancement_success_forwards_enhanced:
  assumes "\<not> no_media media" and "enabled (storageSettings (llmProvider st))"
    and "imageUrlOf env (the media) = Inr imageUrl"
    and "imageUrls = buildImageList (snapshotModeOf (storageSettings (llmProvider st)))
           (fetchFullFrame env (storageSettings (llmProvider st)) (deref (heap st) options)
              (the media))
           (Some imageUrl)"
    and "imageUrls \<noteq> []"
    and "requestEnhancement env (llmProvider st)
           (createMessageTemplate (userPrompt (storageSettings (llmProvider st))) imageUrls
              (buildMetadata (storageSettings (llmProvider st)) title (deref (heap st) options)))
         = (Inr (newTitle, s, b), p)"
    and "updateOptions ((count_with (count_total st))\<lparr>llmProvider := p\<rparr>) options s b
         = (options', st')"
    and "c = \<lparr>c_title = newTitle, c_options = options', c_content = deref (heap st') options',
              c_media = media, c_icon = icon\<rparr>"
    and "mixinSend env (length (sent st)) c = Inr ()"
  shows "sendNotification env st title options media icon = (Inr (), st'\<lparr>sent := sent st @ [c]\<rparr>)"
proof -
  have "sent st' = sent st"
    using assms(7) by (auto simp: updateOptions_eq count_with_def count_total_def)
  then show ?thesis
    using assms
    by (simp add: sendNotification_def Let_def forward_def count_total_def count_with_def)
qed

text \<open>
  C1 is a property the code does not have. The conversion of the attached media object
  (line 175) stands before the first \<open>try\<close>: when it throws, \<open>sendNotification\<close> throws
  and no call reaches the downstream notifier. The forward of the enhanced notification
  (line 286) stands inside the last \<open>try\<close>: when it throws, the \<open>catch\<close> forwards a second
  time.
\<close>

theorem forwards_zero_or_two_calls:
  "fst (sendNotification env_no_conversion ready ''Person'' (Some 0) (Some snapshot) (Some app_icon))
     = Inl (External ''conversion failed'')
   \<and> sent (snd (sendNotification env_no_conversion ready ''Person'' (Some 0) (Some snapshot)
                  (Some app_icon))) = []
   \<and> length (sent (snd (sendNotification env_first_delivery_fails ready ''Person'' (Some 0)
                           (Some snapshot) (Some app_icon)))) = 2"
  by (simp add: sendNotification_def Let_def forward_def updateOptions_eq
        count_total_def count_without_def count_with_def
        env_no_conversion_def env_first_delivery_fails_def env_ok_def ready_def initial_def
        three_providers_def default_settings_def snapshot_def app_icon_def inbound_options_def
        no_media_def imageUrlOf_def dataUrl_def fetchFullFrame_def snapshotModeOf_def js_or_def
        truthy_def buildImageList_def buildMetadata_def createMessageTemplate_def
        requestEnhancement_def selectProvider_def at_index_def llmTimeout_def
        checkResponse_def property_def answer_def deref_def)

text \<open>
  C2 is a property the code does not have. When the downstream notifier rejects the
  enhanced notification, the \<open>catch\<close> of line 288 takes the delivery failure for a failure
  of the enhancement and forwards again, with the original title; when that second call
  is accepted, \<open>sendNotification\<close> returns normally and the caller never learns of the
  failed delivery. And a failed conversion of the attached media object is thrown to the
  caller although nothing was forwarded.
\<close>

theorem delivery_failure_masked:
  "mixinSend env_first_delivery_fails 0
       (hd (sent (snd (sendNotification env_first_delivery_fails ready ''Person'' (Some 0)
                        (Some snapshot) (Some app_icon)))))
     = Inl (External ''delivery failed'')
   \<and> fst (sendNotification env_first_delivery_fails ready ''Person'' (Some 0) (Some snapshot)
            (Some app_icon)) = Inr ()
   \<and> map c_title (sent (snd (sendNotification env_first_delivery_fails ready ''Person'' (Some 0)
                                (Some snapshot) (Some app_icon))))
     = [''Richard at front door'', ''Person'']
   \<and> fst (sendNotification env_no_conversion ready ''Person'' (Some 0) (Some snapshot)
            (Some app_icon)) = Inl (External ''conversion failed'')"
  by (simp add: sendNotification_def Let_def forward_def updateOptions_eq
        count_total_def count_without_def count_with_def
        env_no_conversion_def env_first_delivery_fails_def env_ok_def ready_def initial_def
        three_providers_def default_settings_def snapshot_def app_icon_def inbound_options_def
        no_media_def imageUrlOf_def dataUrl_def fetchFullFrame_def snapshotModeOf_def js_or_def
        truthy_def buildImageList_def buildMetadata_def createMessageTemplate_def
        requestEnhancement_def selectProvider_def at_index_def llmTimeout_def
        checkResponse_def property_def answer_def deref_def)

text \<open>
  C4, as the specification states it, has the pipeline leave the inbound options alone
  and build a new tuple. The code assigns \<open>options.body\<close> and \<open>options.subtitle\<close> on the
  object the caller passed in (lines 282 to 284): after an enhanced call the caller's
  object holds the generated text.
\<close>

theorem inbound_options_overwritten_counterexample:
  "heap ready ! 0 = inbound_options
   \<and> heap (snd (sendNotification env_ok ready ''Person'' (Some 0) (Some snapshot) (Some app_icon))) ! 0
     = inbound_options\<lparr>body := Some ''Walking up holding a package.'',
                       subtitle := Some ''Person - Front door''\<rparr>
   \<and> heap (snd (sendNotification env_ok ready ''Person'' (Some 0) (Some snapshot) (Some app_icon))) ! 0
     \<noteq> inbound_options"
  by (simp add: sendNotification_def Let_def forward_def updateOptions_eq
        count_total_def count_without_def count_with_def
        env_ok_def ready_def initial_def
        three_providers_def default_settings_def snapshot_def app_icon_def inbound_options_def
        no_media_def imageUrlOf_def dataUrl_def fetchFullFrame_def snapshotModeOf_def js_or_def
        truthy_def buildImageList_def buildMetadata_def createMessageTemplate_def
        requestEnhancement_def selectProvider_def at_index_def llmTimeout_def
        checkResponse_def property_def answer_def deref_def)

text \<open>
  C4 (amended): the title, media and icon of the inbound call are never modified, and on
  every path (skip, success, fallback) every call forwarded to the downstream notifier
  carries the original media and icon. The options are not copied. On the skip path,
  when no image is usable, and when anything from the selection of a provider to the
  check of the response fails, nothing is written and the one call forwarded carries the
  original title and options; when the conversion of the attached media fails, nothing is
  written and nothing is forwarded. When the response \<open>(newTitle, subtitle, body)\<close>
  passes the check, the pipeline writes exactly that subtitle and that body into the
  caller's own options object, in place (into a new object when the caller passed none),
  changes no other object of the store, and the first call it forwards carries
  \<open>newTitle\<close> and that object.
\<close>

theorem inbound_tuple_effects:
  "(\<exists>cs. sent (snd (sendNotification env st title options media icon)) = sent st @ cs
         \<and> (\<forall>c\<in>set cs. c_media c = media \<and> c_icon c = icon))
   \<and> (heap (snd (sendNotification env st title options media icon)) = heap st
      \<or> (\<exists>a s b. options = Some a
           \<and> heap (snd (sendNotification env st title options media icon))
             = (heap st)[a := (heap st ! a)\<lparr>body := Some b, subtitle := Some s\<rparr>])
      \<or> (\<exists>s b. options = None
           \<and> heap (snd (sendNotification env st title options media icon))
             = heap st @ [empty_options\<lparr>body := Some b, subtitle := Some s\<rparr>]))
   \<and> (no_media media \<or> \<not> enabled (storageSettings (llmProvider st))
        \<longrightarrow> heap (snd (sendNotification env st title options media icon)) = heap st
          \<and> sent (snd (sendNotification env st title options media icon))
            = sent st @ [\<lparr>c_title = title, c_options = options,
                          c_content = deref (heap st) options,
                          c_media = media, c_icon = icon\<rparr>])
   \<and> (\<forall>e. \<not> no_media media \<and> enabled (storageSettings (llmProvider st))
          \<and> imageUrlOf env (the media) = Inl e
        \<longrightarrow> heap (snd (sendNotification env st title options media icon)) = heap st
          \<and> sent (snd (sendNotification env st title options media icon)) = sent st)
   \<and> (\<forall>imageUrl imageUrls messageTemplate.
          \<not> no_media media \<and> enabled (storageSettings (llmProvider st))
          \<and> imageUrlOf env (the media) = Inr imageUrl
          \<and> imageUrls = buildImageList (snapshotModeOf (storageSettings (llmProvider st)))
               (fetchFullFrame env (storageSettings (llmProvider st)) (deref (heap st) options)
                  (the media))
               (Some imageUrl)
          \<and> messageTemplate = createMessageTemplate (userPrompt (storageSettings (llmProvider st)))
               imageUrls
               (buildMetadata (storageSettings (llmProvider st)) title (deref (heap st) options))
        \<longrightarrow>
          (imageUrls = [] \<longrightarrow>
             heap (snd (sendNotification env st title options media icon)) = heap st
             \<and> sent (snd (sendNotification env st title options media icon))
               = sent st @ [\<lparr>c_title = title, c_options = options,
                             c_content = deref (heap st) options,
                             c_media = media, c_icon = icon\<rparr>])
          \<and> (\<forall>e p. imageUrls \<noteq> []
                 \<and> requestEnhancement env (llmProvider st) messageTemplate = (Inl e, p)
               \<longrightarrow> heap (snd (sendNotification env st title options media icon)) = heap st
                 \<and> sent (snd (sendNotification env st title options media icon))
                   = sent st @ [\<lparr>c_title = title, c_options = options,
                                 c_content = deref (heap st) options,
                                 c_media = media, c_icon = icon\<rparr>])
          \<and> (\<forall>newTitle s b p. imageUrls \<noteq> []
                 \<and> requestEnhancement env (llmProvider st) messageTemplate
                   = (Inr (newTitle, s, b), p)
               \<longrightarrow> heap (snd (sendNotification env st title options media icon))
                   = (case options of
                        None \<Rightarrow> heap st @ [empty_options\<lparr>body := Some b, subtitle := Some s\<rparr>]
                      | Some a \<Rightarrow>
                          (heap st)[a := (heap st ! a)\<lparr>body := Some b, subtitle := Some s\<rparr>])
                 \<and> (\<exists>rest. sent (snd (sendNotification env st title options media icon))
                       = sent st @
                         \<lparr>c_title = newTitle,
                          c_options = Some (case options of None \<Rightarrow> length (heap st) | Some a \<Rightarrow> a),
                          c_content =
                            deref (heap (snd (sendNotification env st title options media icon)))
                              (Some (case options of None \<Rightarrow> length (heap st) | Some a \<Rightarrow> a)),
                          c_media = media, c_icon = icon\<rparr> # rest)))"
proof -
  let ?st' = "snd (sendNotification env st title options media icon)"
  let ?orig = "\<lparr>c_title = title, c_options = options, c_content = deref (heap st) options,
                c_media = media, c_icon = icon\<rparr>"
  have a: "\<exists>cs. sent ?st' = sent st @ cs \<and> (\<forall>c\<in>set cs. c_media c = media \<and> c_icon c = icon)"
    using sendNotification_sent [of env st title options media icon] by blast
  have c: "heap ?st' = heap st \<and> sent ?st' = sent st @ [?orig]"
    if "no_media media \<or> \<not> enabled (storageSettings (llmProvider st))"
    using skip_forwards_original [OF that, of env title options icon]
    by (simp add: forward_def Let_def count_without_def count_total_def)
  have d: "heap ?st' = heap st \<and> sent ?st' = sent st"
    if "\<not> no_media media \<and> enabled (storageSettings (llmProvider st))
        \<and> imageUrlOf env (the media) = Inl e" for e
    using that
    by (simp add: sendNotification_def Let_def count_total_def count_with_def)
  have e1: "heap ?st' = heap st \<and> sent ?st' = sent st @ [?orig]"
    if "\<not> no_media media" "enabled (storageSettings (llmProvider st))"
      "imageUrlOf env (the media) = Inr imageUrl"
      "buildImageList (snapshotModeOf (storageSettings (llmProvider st)))
         (fetchFullFrame env (storageSettings (llmProvider st)) (deref (heap st) options)
            (the media))
         (Some imageUrl) = []" for imageUrl
    using that
    by (simp add: sendNotification_def Let_def forward_def count_total_def count_with_def)
  have e2: "heap ?st' = heap st \<and> sent ?st' = sent st @ [?orig]"
    if "\<not> no_media media" "enabled (storageSettings (llmProvider st))"
      "imageUrlOf env (the media) = Inr imageUrl"
      "imageUrls = buildImageList (snapshotModeOf (storageSettings (llmProvider st)))
         (fetchFullFrame env (storageSettings (llmProvider st)) (deref (heap st) options)
            (the media))
         (Some imageUrl)"
      "imageUrls \<noteq> []"
      "requestEnhancement env (llmProvider st)
         (createMessageTemplate (userPrompt (storageSettings (llmProvider st))) imageUrls
            (buildMetadata (storageSettings (llmProvider st)) title (deref (heap st) options)))
       = (Inl e, p)" for imageUrl imageUrls e p
    using enhancement_failure_forwards_original [OF that, of icon]
    by (simp add: count_total_def count_with_def)
  have e3: "heap ?st' = (case options of
                None \<Rightarrow> heap st @ [empty_options\<lparr>body := Some b, subtitle := Some s\<rparr>]
              | Some a \<Rightarrow> (heap st)[a := (heap st ! a)\<lparr>body := Some b, subtitle := Some s\<rparr>])
          \<and> (\<exists>rest. sent ?st' = sent st @
                 \<lparr>c_title = newTitle,
                  c_options = Some (case options of None \<Rightarrow> length (heap st) | Some a \<Rightarrow> a),
                  c_content = deref (heap ?st')
                     (Some (case options of None \<Rightarrow> length (heap st) | Some a \<Rightarrow> a)),
                  c_media = media, c_icon = icon\<rparr> # rest)"
    if "\<not> no_media media" "enabled (storageSettings (llmProvider st))"
      "imageUrlOf env (the media) = Inr imageUrl"
      "imageUrls = buildImageList (snapshotModeOf (storageSettings (llmProvider st)))
         (fetchFullFrame env (storageSettings (llmProvider st)) (deref (heap st) options)
            (the media))
         (Some imageUrl)"
      "imageUrls \<noteq> []"
      "requestEnhancement env (llmProvider st)
         (createMessageTemplate (userPrompt (storageSettings (llmProvider st))) imageUrls
            (buildMetadata (storageSettings (llmProvider st)) title (deref (heap st) options)))
       = (Inr (newTitle, s, b), p)" for imageUrl imageUrls newTitle s b p
    using that
    by (cases options)
       (auto simp: sendNotification_def Let_def forward_def updateOptions_eq
          count_total_def count_with_def split: sum.splits)
  show ?thesis
    using a sendNotification_heap [of env st title options media icon] c d e1 e2 e3
    by (intro conjI allI impI) (blast | (elim conjE, simp))+
qed

theorem inbound_tuple_effects_witness:
  "no_media None
   \<and> heap (snd (sendNotification env_ok ready ''Motion'' (Some 0) None (Some app_icon))) = heap ready
   \<and> sent (snd (sendNotification env_ok ready ''Motion'' (Some 0) None (Some app_icon)))
     = [\<lparr>c_title = ''Motion'', c_options = Some 0, c_content = Some inbound_options,
         c_media = None, c_icon = Some app_icon\<rparr>]
   \<and> requestEnhancement env_ok (llmProvider ready)
        (createMessageTemplate ''STYLE PREFERENCES'' [''data:image/jpeg;base64,AQID'']
           (buildMetadata three_providers ''Person'' (Some inbound_options)))
      = (Inr (''Richard at front door'', ''Person - Front door'',
              ''Walking up holding a package.''),
         (llmProvider ready)\<lparr>currentProviderIndex := 1\<rparr>)
   \<and> heap (snd (sendNotification env_ok ready ''Person'' (Some 0) (Some snapshot) (Some app_icon)))
     = [inbound_options\<lparr>body := Some ''Walking up holding a package.'',
                        subtitle := Some ''Person - Front door''\<rparr>]"
proof -
  have n: "no_media None"
    by (simp add: no_media_def)
  have s: "sent ready = []" "deref (heap ready) (Some 0) = Some inbound_options"
    "heap ready = [inbound_options]" "storageSettings (llmProvider ready) = three_providers"
    by (simp_all add: ready_def initial_def deref_def at_index_def)
  note t = inbound_tuple_effects [of env_ok ready "''Motion''" "Some 0" None "Some app_icon"]
  from t n
  have skip: "heap (snd (sendNotification env_ok ready ''Motion'' (Some 0) None (Some app_icon))) = heap ready
      \<and> sent (snd (sendNotification env_ok ready ''Motion'' (Some 0) None (Some app_icon)))
        = sent ready @ [\<lparr>c_title = ''Motion'', c_options = Some 0,
                         c_content = deref (heap ready) (Some 0),
                         c_media = None, c_icon = Some app_icon\<rparr>]"
    by blast
  have m: "\<not> no_media (Some snapshot)"
    by (simp add: no_media_def snapshot_def)
  have en: "enabled (storageSettings (llmProvider ready))"
    by (simp add: s three_providers_def default_settings_def)
  have url: "imageUrlOf env_ok (the (Some snapshot)) = Inr ''data:image/jpeg;base64,AQID''"
    by (simp add: imageUrlOf_def snapshot_def env_ok_def dataUrl_def)
  have imgs: "[''data:image/jpeg;base64,AQID'']
      = buildImageList (snapshotModeOf (storageSettings (llmProvider ready)))
          (fetchFullFrame env_ok (storageSettings (llmProvider ready))
             (deref (heap ready) (Some 0)) (the (Some snapshot)))
          (Some ''data:image/jpeg;base64,AQID'')"
    by (simp add: s three_providers_def default_settings_def snapshotModeOf_def js_or_def
          truthy_def fetchFullFrame_def buildImageList_def)
  have tm: "createMessageTemplate ''STYLE PREFERENCES'' [''data:image/jpeg;base64,AQID'']
           (buildMetadata three_providers ''Person'' (Some inbound_options))
      = createMessageTemplate (userPrompt (storageSettings (llmProvider ready)))
          [''data:image/jpeg;base64,AQID'']
          (buildMetadata (storageSettings (llmProvider ready)) ''Person''
             (deref (heap ready) (Some 0)))"
    by (simp add: s(3,4) deref_def at_index_def three_providers_def default_settings_def)
  have req: "requestEnhancement env_ok (llmProvider ready)
        (createMessageTemplate ''STYLE PREFERENCES'' [''data:image/jpeg;base64,AQID'']
           (buildMetadata three_providers ''Person'' (Some inbound_options)))
      = (Inr (''Richard at front door'', ''Person - Front door'',
              ''Walking up holding a package.''),
         (llmProvider ready)\<lparr>currentProviderIndex := 1\<rparr>)"
    by (simp add: requestEnhancement_def selectProvider_def at_index_def ready_def initial_def
          three_providers_def default_settings_def env_ok_def truthy_def checkResponse_def
          property_def answer_def)
  note u = inbound_tuple_effects [of env_ok ready "''Person''" "Some 0" "Some snapshot"
      "Some app_icon", THEN conjunct2, THEN conjunct2, THEN conjunct2, THEN conjunct2,
      rule_format, OF conjI [OF m conjI [OF en conjI [OF url conjI [OF imgs tm]]]],
      THEN conjunct2, THEN conjunct2, rule_format, OF conjI [OF _ req]]
  have "heap (snd (sendNotification env_ok ready ''Person'' (Some 0) (Some snapshot) (Some app_icon)))
      = (case Some 0 of
           None \<Rightarrow> heap ready @ [empty_options\<lparr>body := Some ''Walking up holding a package.'',
                                               subtitle := Some ''Person - Front door''\<rparr>]
         | Some a \<Rightarrow> (heap ready)[a := (heap ready ! a)
                          \<lparr>body := Some ''Walking up holding a package.'',
                           subtitle := Some ''Person - Front door''\<rparr>])"
    using u by simp
  then have enh: "heap (snd (sendNotification env_ok ready ''Person'' (Some 0) (Some snapshot) (Some app_icon)))
     = [inbound_options\<lparr>body := Some ''Walking up holding a package.'',
                        subtitle := Some ''Person - Front door''\<rparr>]"
    by (simp add: s)
  show ?thesis using n s skip req enh by simp
qed

subsection \<open>The codec: nearest-neighbour sampling\<close>

text \<open>The rounded quotient and the floored quotient of the code, as real arithmetic has them.\<close>

lemma js_round_div_round:
  assumes "0 < b"
  shows "int (js_round_div a b) = round (real a / real b)"
proof -
  have "real a / real b + 1 / 2 = real (2 * a + b) / real (2 * b)"
    using assms by (simp add: field_simps)
  then have "round (real a / real b) = \<lfloor>real (2 * a + b) / real (2 * b)\<rfloor>"
    by (simp only: round_def)
  also have "\<dots> = int ((2 * a + b) div (2 * b))"
    by (rule floor_divide_of_nat_eq)
  finally show ?thesis by (simp add: js_round_div_def)
qed

lemma div_floor:
  "int (a div b) = \<lfloor>real a / real b\<rfloor>"
  by (simp add: floor_divide_of_nat_eq)

lemma shl2_exact:
  assumes "4 * n < 2 ^ 31"
  shows "shl2 (int n) = int (4 * n)"
proof -
  have "int n * 4 < 2 ^ 31"
    using assms by simp
  moreover have "- (2 ^ 31) \<le> int n * 4"
    by simp
  ultimately have "signed_take_bit 31 (int n * 4) = int n * 4"
    by (simp only: signed_take_bit_int_eq_self)
  then show ?thesis by (simp add: shl2_def mult.commute)
qed

lemma wr_at: "m < length a \<Longrightarrow> wr a (int m) v = a[m := v]"
  by (simp add: wr_def)

lemma rd_at: "m < length a \<Longrightarrow> rd a (int m) = a ! m"
  by (simp add: rd_def)

text \<open>One pass of the inner loop body writes the four bytes of one pixel and nothing else.\<close>

lemma copy_pixel_writes:
  assumes k: "4 * (y * dw + x) + 3 < length d" and dn: "length d < 2 ^ 31"
    and j: "4 * (sy * sw + (x * sw) div dw) + 3 < length src" and sn: "length src < 2 ^ 31"
  shows "copy_pixel src sw dw sy y x d =
           d[4 * (y * dw + x) := src ! (4 * (sy * sw + (x * sw) div dw)),
             4 * (y * dw + x) + 1 := src ! (4 * (sy * sw + (x * sw) div dw) + 1),
             4 * (y * dw + x) + 2 := src ! (4 * (sy * sw + (x * sw) div dw) + 2),
             4 * (y * dw + x) + 3 := 255]"
proof -
  define k where "k = 4 * (y * dw + x)"
  define j where "j = 4 * (sy * sw + (x * sw) div dw)"
  have sk: "shl2 (int (y * dw + x)) = int k"
    unfolding k_def using k dn by (intro shl2_exact) simp
  have sj: "shl2 (int (sy * sw + (x * sw) div dw)) = int j"
    unfolding j_def using j sn by (intro shl2_exact) simp
  have kb: "k < length d" "k + 1 < length d" "k + 2 < length d" "k + 3 < length d"
    using k by (simp_all add: k_def)
  have jb: "j < length src" "j + 1 < length src" "j + 2 < length src"
    using j by (simp_all add: j_def)
  have e: "int k + 1 = int (k + 1)" "int k + 2 = int (k + 2)" "int k + 3 = int (k + 3)"
    "int j + 1 = int (j + 1)" "int j + 2 = int (j + 2)"
    by simp_all
  have "copy_pixel src sw dw sy y x d =
          d[k := src ! j, k + 1 := src ! (j + 1), k + 2 := src ! (j + 2), k + 3 := 255]"
    unfolding copy_pixel_def Let_def sk sj e
    using kb jb by (simp only: wr_at rd_at length_list_update)
  then show ?thesis by (simp only: k_def j_def)
qed

lemma copy_pixel_nth:
  assumes k: "4 * (y * dw + x) + 3 < length d" and dn: "length d < 2 ^ 31"
    and j: "4 * (sy * sw + (x * sw) div dw) + 3 < length src" and sn: "length src < 2 ^ 31"
    and i: "i < length d"
  shows "copy_pixel src sw dw sy y x d ! i =
           (if i div 4 = y * dw + x
            then (if i mod 4 = 3 then 255
                  else src ! (4 * (sy * sw + (x * sw) div dw) + i mod 4))
            else d ! i)"
proof -
  define k where "k = 4 * (y * dw + x)"
  define j where "j = 4 * (sy * sw + (x * sw) div dw)"
  define d' where "d' = d[k := src ! j, k + 1 := src ! (j + 1), k + 2 := src ! (j + 2), k + 3 := 255]"
  have w: "copy_pixel src sw dw sy y x d = d'"
    unfolding d'_def k_def j_def by (rule copy_pixel_writes [OF k dn j sn])
  have kb: "k + 3 < length d"
    using k by (simp add: k_def)
  show ?thesis
  proof (cases "i div 4 = y * dw + x")
    case True
    define c where "c = i mod 4"
    have ic: "i = k + c" and c4: "c < 4"
      using True by (simp_all add: k_def c_def) presburger
    from c4 have "c = 0 \<or> c = 1 \<or> c = 2 \<or> c = 3"
      by presburger
    then have "d' ! (k + c) = (if c = 3 then 255 else src ! (j + c))"
      using kb by (auto simp: d'_def nth_list_update)
    then show ?thesis
      using True by (simp add: w ic [symmetric] c_def [symmetric] j_def)
  next
    case False
    then have "i \<noteq> k" "i \<noteq> k + 1" "i \<noteq> k + 2" "i \<noteq> k + 3"
      unfolding k_def by presburger+
    then have "d' ! i = d ! i"
      by (simp add: d'_def nth_list_update)
    then show ?thesis
      using False by (simp add: w)
  qed
qed

lemma copy_pixel_length:
  assumes k: "4 * (y * dw + x) + 3 < length d" and dn: "length d < 2 ^ 31"
    and j: "4 * (sy * sw + (x * sw) div dw) + 3 < length src" and sn: "length src < 2 ^ 31"
  shows "length (copy_pixel src sw dw sy y x d) = length d"
  by (simp add: copy_pixel_writes [OF k dn j sn])
text \<open>The two nested loops visit the pairs \<open>(y, x)\<close> row by row.\<close>

lemma fold_rows_product:
  "fold (\<lambda>y. fold (f y) xs) ys d = fold (\<lambda>p. f (fst p) (snd p)) (List.product ys xs) d"
  by (induction ys arbitrary: d) (simp_all add: fold_map comp_def)

text \<open>
  A run of steps, each of which rewrites the four bytes of its own pixel \<open>g p\<close> and
  nothing else: a byte of a pixel that no step owns keeps its value, and a byte of the
  pixel of step \<open>p\<close> ends with what \<open>p\<close> wrote, when no two steps share a pixel.
\<close>

lemma fold_untouched:
  assumes "\<And>p d. p \<in> set ps \<Longrightarrow> length d = n \<Longrightarrow>
             length (step p d) = n \<and> (\<forall>i<n. i div 4 \<noteq> g p \<longrightarrow> step p d ! i = d ! i)"
    and "length d = n" and "i < n" and "\<forall>p\<in>set ps. g p \<noteq> i div 4"
  shows "length (fold step ps d) = n \<and> fold step ps d ! i = d ! i"
  using assms
proof (induction ps arbitrary: d)
  case Nil
  then show ?case by simp
next
  case (Cons a ps)
  have a: "length (step a d) = n \<and> (\<forall>i<n. i div 4 \<noteq> g a \<longrightarrow> step a d ! i = d ! i)"
    using Cons.prems(1) [of a d] Cons.prems(2) by simp
  have "length (fold step ps (step a d)) = n \<and> fold step ps (step a d) ! i = step a d ! i"
  proof (rule Cons.IH)
    show "length (step p d) = n \<and> (\<forall>i<n. i div 4 \<noteq> g p \<longrightarrow> step p d ! i = d ! i)"
      if "p \<in> set ps" and "length d = n" for p d
      using Cons.prems(1) [of p d] that by simp
    show "length (step a d) = n" using a by simp
    show "i < n" by (rule Cons.prems(3))
    show "\<forall>p\<in>set ps. g p \<noteq> i div 4" using Cons.prems(4) by simp
  qed
  moreover have "step a d ! i = d ! i"
    using a Cons.prems(3,4) by auto
  ultimately show ?case by simp
qed

lemma fold_written:
  assumes step: "\<And>p d. p \<in> set ps \<Longrightarrow> length d = n \<Longrightarrow>
             length (step p d) = n
             \<and> (\<forall>i<n. step p d ! i = (if i div 4 = g p then v p (i mod 4) else d ! i))"
    and inj: "inj_on g (set ps)"
    and "length d = n" and "p \<in> set ps" and "i < n" and "i div 4 = g p"
  shows "fold step ps d ! i = v p (i mod 4)"
  using assms
proof (induction ps arbitrary: d)
  case Nil
  then show ?case by simp
next
  case (Cons a ps)
  have a: "length (step a d) = n
         \<and> (\<forall>i<n. step a d ! i = (if i div 4 = g a then v a (i mod 4) else d ! i))"
    using Cons.prems(1) [of a d] Cons.prems(3) by simp
  have st: "length (step q e) = n
          \<and> (\<forall>i<n. step q e ! i = (if i div 4 = g q then v q (i mod 4) else e ! i))"
    if "q \<in> set ps" and "length e = n" for q e
    using Cons.prems(1) [of q e] that by simp
  have inj': "inj_on g (set ps)"
    using Cons.prems(2) by (simp add: inj_on_def)
  show ?case
  proof (cases "p \<in> set ps")
    case True
    have "fold step ps (step a d) ! i = v p (i mod 4)"
      using st inj' a True Cons.prems(5,6) by (intro Cons.IH) auto
    then show ?thesis by simp
  next
    case False
    then have pa: "p = a" using Cons.prems(4) by simp
    have other: "\<forall>q\<in>set ps. g q \<noteq> i div 4"
    proof
      fix q assume q: "q \<in> set ps"
      then have "q \<noteq> a" using False pa by auto
      then have "g q \<noteq> g a"
        using Cons.prems(2) q by (auto simp: inj_on_def)
      then show "g q \<noteq> i div 4" using Cons.prems(6) pa by simp
    qed
    have "length (fold step ps (step a d)) = n
        \<and> fold step ps (step a d) ! i = step a d ! i"
    proof (rule fold_untouched [where g = g])
      show "length (step q e) = n \<and> (\<forall>i<n. i div 4 \<noteq> g q \<longrightarrow> step q e ! i = e ! i)"
        if "q \<in> set ps" and "length e = n" for q e
        using st [OF that] by simp
      show "length (step a d) = n" using a by simp
      show "i < n" by (rule Cons.prems(5))
      show "\<forall>q\<in>set ps. g q \<noteq> i div 4" by (rule other)
    qed
    moreover have "step a d ! i = v a (i mod 4)"
      using a Cons.prems(5,6) pa by simp
    ultimately show ?thesis using pa by simp
  qed
qed

lemma fold_length:
  assumes "\<And>p d. p \<in> set ps \<Longrightarrow> length d = n \<Longrightarrow> length (step p d) = n"
    and "length d = n"
  shows "length (fold step ps d) = n"
  using assms by (induction ps arbitrary: d) simp_all

lemma pixel_index_bound:
  assumes "y < h" and "x < w"
  shows "4 * (y * w + x) + 3 < 4 * w * (h::nat)"
proof -
  have "y * w + x < (y + 1) * w"
    using assms(2) by simp
  also have "\<dots> \<le> h * w"
    using assms(1) by (intro mult_le_mono1) simp
  finally have "y * w + x + 1 \<le> w * h"
    by (simp add: mult.commute)
  then show ?thesis by simp
qed

lemma pixel_index_inj:
  "inj_on (\<lambda>p. fst p * w + snd p) (set (List.product [0..<h] [0..<w]))"
proof (rule inj_onI)
  fix p q
  assume p: "p \<in> set (List.product [0..<h] [0..<w])"
    and q: "q \<in> set (List.product [0..<h] [0..<w])"
    and e: "fst p * w + snd p = fst q * w + snd q"
  from p q have b: "snd p < w" "snd q < w" by auto
  have "(fst p * w + snd p) div w = fst p" "(fst q * w + snd q) div w = fst q"
    using b by simp_all
  then have 1: "fst p = fst q" using e by simp
  then have "snd p = snd q" using e by simp
  then show "p = q" using 1 by (simp add: prod_eq_iff)
qed

lemma scaled_index_bound:
  assumes "x < d" shows "(x * s) div d < (s::nat) \<or> s = 0"
proof (cases "s = 0")
  case False
  then have "x * s < s * d" using assms by simp
  then show ?thesis by (simp add: less_mult_imp_div_less)
qed simp

lemma rounded_height_bound:
  assumes "w < sw" and "0 < sh"
  shows "max 1 (js_round_div (sh * w) sw) \<le> sh"
proof -
  have le: "sh * w \<le> sh * sw" using assms(1) by simp
  have pos: "0 < sw" using assms(1) by simp
  have "(sh + 1) * (2 * sw) = 2 * (sh * sw) + 2 * sw"
    by (simp add: algebra_simps)
  moreover have "2 * (sh * w) + sw < 2 * (sh * sw) + 2 * sw"
    using le pos by linarith
  ultimately have "2 * (sh * w) + sw < (sh + 1) * (2 * sw)"
    by simp
  then have "(2 * (sh * w) + sw) div (2 * sw) < sh + 1"
    by (rule less_mult_imp_div_less)
  then show ?thesis using assms(2) by (simp add: js_round_div_def)
qed
text \<open>
  C8: for every decoded image (RGBA bytes, four per pixel, of positive width \<open>sw\<close> and
  height \<open>sh\<close>, within the 32-bit index range of the code's shifts, as every image the
  JPEG library decodes is) and every target width \<open>w < sw\<close>, the image that
  \<open>resizeJpegNearest\<close> hands to the encoder has width \<open>w\<close> and height
  \<open>max 1 (round (sh * w / sw))\<close>; its pixel \<open>(x, y)\<close> has the red, green and blue bytes of
  the source pixel at column \<open>floor (x * sw / w)\<close> and row \<open>floor (y * sh / height)\<close>, each
  axis on its own; and its alpha byte is 255 whatever the source holds.
\<close>

theorem nearest_sampling:
  assumes sw: "0 < width img" and sh: "0 < height img"
    and len: "length (data img) = 4 * width img * height img"
    and small: "4 * width img * height img < 2 ^ 31"
    and w: "w < width img"
  shows "width (nearest env img w) = w
       \<and> height (nearest env img w) = max 1 (js_round_div (height img * w) (width img))
       \<and> int (height (nearest env img w))
           = max 1 (round (real (height img * w) / real (width img)))
       \<and> length (data (nearest env img w)) = 4 * w * height (nearest env img w)
       \<and> (\<forall>y < height (nearest env img w). \<forall>x < w.
            (\<forall>c < 3. data (nearest env img w) ! (4 * (y * w + x) + c)
                    = data img ! (4 * ((y * height img) div height (nearest env img w) * width img
                                       + (x * width img) div w) + c))
            \<and> data (nearest env img w) ! (4 * (y * w + x) + 3) = 255
            \<and> int ((y * height img) div height (nearest env img w))
                = \<lfloor>real (y * height img) / real (height (nearest env img w))\<rfloor>
            \<and> int ((x * width img) div w) = \<lfloor>real (x * width img) / real w\<rfloor>)
       \<and> (\<forall>input quality. jpeg_decode env input = Inr img \<longrightarrow>
            resizeJpegNearest env input w quality = jpeg_encode env (nearest env img w) quality)"
proof -
  define src where "src = data img"
  define sw where "sw = width img"
  define sh where "sh = height img"
  define dh where "dh = max 1 (js_round_div (sh * w) sw)"
  define n where "n = 4 * w * dh"
  define ps where "ps = List.product [0..<dh] [0..<w]"
  define step where "step = (\<lambda>p. copy_pixel src sw w ((fst p * sh) div dh) (fst p) (snd p))"
  define g where "g = (\<lambda>p::nat \<times> nat. fst p * w + snd p)"
  define v where "v = (\<lambda>(p::nat \<times> nat) c. if c = 3 then (255 :: 8 word)
      else src ! (4 * ((fst p * sh) div dh * sw + (snd p * sw) div w) + c))"
  define d0 where "d0 = allocUnsafe env (w * dh * 4)"
  define out where "out = fold step ps d0"

  have swpos: "0 < sw" and shpos: "0 < sh" and wlt: "w < sw"
    using sw sh w by (simp_all add: sw_def sh_def)
  have srclen: "length src = 4 * sw * sh" and srcsmall: "length src < 2 ^ 31"
    using len small by (simp_all add: src_def sw_def sh_def)
  have dhpos: "0 < dh"
    by (simp add: dh_def)
  have dhle: "dh \<le> sh"
    unfolding dh_def using wlt shpos by (rule rounded_height_bound)
  have "w * dh \<le> sw * sh"
    using wlt dhle by (intro mult_le_mono) simp_all
  then have "4 * (w * dh) \<le> 4 * (sw * sh)"
    by simp
  moreover have "4 * (sw * sh) < 2 ^ 31"
    using srclen srcsmall by (simp add: mult.assoc)
  ultimately have "4 * (w * dh) < 2 ^ 31"
    by (rule le_less_trans)
  then have nsmall: "n < 2 ^ 31"
    by (simp add: n_def mult.assoc)
  have d0len: "length d0 = n"
    by (simp add: d0_def allocUnsafe_def n_def mult.commute)

  have rows: "copy_row src sw sh w dh = (\<lambda>y. fold (\<lambda>x. step (y, x)) [0..<w])"
    by (simp add: copy_row_def step_def fun_eq_iff)
  have "fold (copy_row src sw sh w dh) [0..<dh] d0 = out"
    unfolding rows out_def ps_def by (simp add: fold_rows_product)
  then have res: "nearest env img w = \<lparr>data = out, width = w, height = dh\<rparr>"
    by (simp add: nearest_def Let_def src_def sw_def sh_def dh_def d0_def)

  have stepP: "length (step p d) = n
      \<and> (\<forall>i<n. step p d ! i = (if i div 4 = g p then v p (i mod 4) else d ! i))"
    if p: "p \<in> set ps" and d: "length d = n" for p d
  proof -
    from p have y: "fst p < dh" and x: "snd p < w"
      by (auto simp: ps_def)
    have k: "4 * (fst p * w + snd p) + 3 < length d"
      using pixel_index_bound [OF y x] d by (simp add: n_def)
    have dn: "length d < 2 ^ 31"
      using d nsmall by simp
    have sy: "(fst p * sh) div dh < sh"
      using scaled_index_bound [OF y, of sh] shpos by simp
    have sx: "(snd p * sw) div w < sw"
      using scaled_index_bound [OF x, of sw] swpos by simp
    have j: "4 * ((fst p * sh) div dh * sw + (snd p * sw) div w) + 3 < length src"
      using pixel_index_bound [OF sy sx] srclen by simp
    have "length (step p d) = length d"
      unfolding step_def by (rule copy_pixel_length [OF k dn j srcsmall])
    moreover have "step p d ! i = (if i div 4 = g p then v p (i mod 4) else d ! i)"
      if "i < n" for i
      using copy_pixel_nth [OF k dn j srcsmall, of i] that d
      by (simp add: step_def g_def v_def)
    ultimately show ?thesis using d by simp
  qed

  have outlen: "length out = n"
    unfolding out_def using stepP d0len by (intro fold_length [where n = n]) auto

  have inj: "inj_on g (set ps)"
    unfolding g_def ps_def by (rule pixel_index_inj)

  have px: "out ! (4 * (y * w + x) + c) = v (y, x) c"
    if "y < dh" and "x < w" and "c < 4" for y x c
  proof -
    let ?i = "4 * (y * w + x) + c"
    have p: "(y, x) \<in> set ps"
      using that by (simp add: ps_def)
    have i: "?i < n"
      using pixel_index_bound [OF that(1,2)] that(3) by (simp add: n_def)
    have q: "(4 * m + c) div 4 = m \<and> (4 * m + c) mod 4 = c" for m
      using that(3) by presburger
    have dv: "?i div 4 = g (y, x)" and md: "?i mod 4 = c"
      using q [of "y * w + x"] by (simp_all add: g_def)
    have "fold step ps d0 ! ?i = v (y, x) (?i mod 4)"
      using stepP inj d0len p i dv by (rule fold_written)
    then show ?thesis unfolding out_def md .
  qed

  have h_round: "int dh = max 1 (round (real (sh * w) / real sw))"
    using js_round_div_round [OF swpos, of "sh * w"] by (simp add: dh_def)

  have resize: "resizeJpegNearest env input w quality = jpeg_encode env (nearest env img w) quality"
    if "jpeg_decode env input = Inr img" for input quality
    using that sw sh w by (simp add: resizeJpegNearest_def Let_def min_def)

  have pixels: "(\<forall>c < 3. out ! (4 * (y * w + x) + c)
                    = src ! (4 * ((y * sh) div dh * sw + (x * sw) div w) + c))
            \<and> out ! (4 * (y * w + x) + 3) = 255
            \<and> int ((y * sh) div dh) = \<lfloor>real (y * sh) / real dh\<rfloor>
            \<and> int ((x * sw) div w) = \<lfloor>real (x * sw) / real w\<rfloor>"
    if "y < dh" and "x < w" for y x
    using px [OF that] by (simp add: v_def div_floor)

  show ?thesis
    unfolding res using outlen h_round pixels resize
    by (simp add: n_def dh_def src_def sw_def sh_def res)
qed
theorem nearest_sampling_witness:
  "0 < width image4x2 \<and> 0 < height image4x2
   \<and> length (data image4x2) = 4 * width image4x2 * height image4x2
   \<and> 4 * width image4x2 * height image4x2 < 2 ^ 31
   \<and> 2 < width image4x2
   \<and> width (nearest env_ok image4x2 2) = 2
   \<and> height (nearest env_ok image4x2 2) = 1
   \<and> data (nearest env_ok image4x2 2) ! 4 = 8
   \<and> data (nearest env_ok image4x2 2) ! 7 = 255"
proof -
  have a: "0 < width image4x2" and b: "0 < height image4x2"
    and c: "length (data image4x2) = 4 * width image4x2 * height image4x2"
    and d: "4 * width image4x2 * height image4x2 < 2 ^ 31"
    and e: "2 < width image4x2"
    by (simp_all add: image4x2_def)
  note t = nearest_sampling [OF a b c d e, of env_ok]
  have wd: "width (nearest env_ok image4x2 2) = 2"
    by (rule t [THEN conjunct1])
  have "height (nearest env_ok image4x2 2)
      = max 1 (js_round_div (height image4x2 * 2) (width image4x2))"
    by (rule t [THEN conjunct2, THEN conjunct1])
  then have ht: "height (nearest env_ok image4x2 2) = 1"
    by (simp add: image4x2_def js_round_div_def)
  note px = t [THEN conjunct2, THEN conjunct2, THEN conjunct2, THEN conjunct2, THEN conjunct1,
      rule_format, of 0 1, unfolded ht]
  have y: "(0::nat) < 1" and x: "(1::nat) < 2" by simp_all
  have "data (nearest env_ok image4x2 2) ! (4 * (0 * 2 + 1) + 0)
      = data image4x2 ! (4 * ((0 * height image4x2) div 1 * width image4x2
                             + (1 * width image4x2) div 2) + 0)"
    using px [OF y x, THEN conjunct1, rule_format, of 0] by simp
  then have p4: "data (nearest env_ok image4x2 2) ! 4 = 8"
    by (simp add: image4x2_def)
  have "data (nearest env_ok image4x2 2) ! (4 * (0 * 2 + 1) + 3) = 255"
    using px [OF y x, THEN conjunct2, THEN conjunct1] by simp
  then have p7: "data (nearest env_ok image4x2 2) ! 7 = 255"
    by simp
  show ?thesis using a b c d e wd ht p4 p7 by blast
qed

end
